theory Spec2Isabelle
  imports Main
begin

section \<open>Strings and wall-clock values\<close>

text \<open>
  Frequency texts are byte strings. \<open>lower\<close> is Python's \<open>str.lower\<close> on ASCII: the
  letters A to Z are mapped to a to z, every other character is kept.
\<close>

definition lower_char :: "char \<Rightarrow> char" where
  "lower_char c =
     (case map_of (zip ''ABCDEFGHIJKLMNOPQRSTUVWXYZ'' ''abcdefghijklmnopqrstuvwxyz'') c of
        Some d \<Rightarrow> d
      | None \<Rightarrow> c)"

definition lower :: "string \<Rightarrow> string" where
  "lower s = map lower_char s"

fun startswith :: "string \<Rightarrow> string \<Rightarrow> bool" where
  "startswith [] ys = True"
| "startswith (x # xs) [] = False"
| "startswith (x # xs) (y # ys) = (x = y \<and> startswith xs ys)"

text \<open>\<open>py_in sub text\<close> is Python's \<open>sub in text\<close> on strings.\<close>

fun py_in :: "string \<Rightarrow> string \<Rightarrow> bool" where
  "py_in sub [] = (sub = [])"
| "py_in sub (c # cs) = (startswith sub (c # cs) \<or> py_in sub cs)"

definition digit :: "nat \<Rightarrow> char" where
  "digit n = ''0123456789'' ! (n mod 10)"

definition pad2 :: "nat \<Rightarrow> string" where
  "pad2 n = [digit (n div 10), digit n]"

definition pad4 :: "nat \<Rightarrow> string" where
  "pad4 n = [digit (n div 1000), digit (n div 100), digit (n div 10), digit n]"

definition pad6 :: "nat \<Rightarrow> string" where
  "pad6 n = [digit (n div 100000), digit (n div 10000), digit (n div 1000),
             digit (n div 100), digit (n div 10), digit n]"

text \<open>
  A naive \<open>datetime\<close> (no time zone), as \<open>datetime.now()\<close> returns it.
\<close>

record datetime =
  year :: nat
  month :: nat
  day :: nat
  hour :: nat
  minute :: nat
  second :: nat
  microsecond :: nat

text \<open>\<open>dt.date()\<close>.\<close>

definition date_of :: "datetime \<Rightarrow> nat \<times> nat \<times> nat" where
  "date_of dt = (year dt, month dt, day dt)"

text \<open>\<open>dt.strftime('%H:%M')\<close>.\<close>

definition strftime_HM :: "datetime \<Rightarrow> string" where
  "strftime_HM dt = pad2 (hour dt) @ '':'' @ pad2 (minute dt)"

text \<open>\<open>dt.isoformat()\<close>: the fraction is printed only when the microseconds are not zero.\<close>

definition isoformat :: "datetime \<Rightarrow> string" where
  "isoformat dt =
     pad4 (year dt) @ ''-'' @ pad2 (month dt) @ ''-'' @ pad2 (day dt) @ ''T'' @
     pad2 (hour dt) @ '':'' @ pad2 (minute dt) @ '':'' @ pad2 (second dt) @
     (if microsecond dt = 0 then [] else ''.'' @ pad6 (microsecond dt))"

text \<open>A well-formed \<open>HH:MM\<close> time of day: two digits, a colon, two digits, 00:00 to 23:59.\<close>

definition is_digit :: "char \<Rightarrow> bool" where
  "is_digit c = (c \<in> set ''0123456789'')"

fun is_hhmm :: "string \<Rightarrow> bool" where
  "is_hhmm [a, b, c, d, e] =
     (c = CHR '':'' \<and> is_digit a \<and> is_digit b \<and> is_digit d \<and> is_digit e \<and>
      (a \<in> set ''01'' \<or> (a = CHR ''2'' \<and> b \<in> set ''0123'')) \<and> d \<in> set ''012345'')"
| "is_hhmm _ = False"

section \<open>The frequency interpreter\<close>

text \<open>
  \<open>parse_frequency_to_times\<close> of the source. The argument is \<open>None\<close> for Python's
  \<open>None\<close>; \<open>frequency_text or ''\<close> turns it (and the empty string) into the empty
  string.
\<close>

definition parse_frequency_to_times :: "string option \<Rightarrow> string list" where
  "parse_frequency_to_times frequency_text =
     (let text = lower (case frequency_text of None \<Rightarrow> [] | Some t \<Rightarrow> t) in
      if py_in ''1-1-1'' text \<or> py_in ''three'' text \<or> py_in ''tds'' text
        then [''09:00'', ''14:00'', ''20:00'']
      else if py_in ''1-0-1'' text \<or> py_in ''twice'' text \<or> py_in ''bid'' text \<or>
              py_in ''0-1-1'' text \<or> py_in ''1-1-0'' text
        then [''09:00'', ''20:00'']
      else if py_in ''0-0-1'' text \<or> py_in ''night'' text
        then [''20:00'']
      else if py_in ''morning'' text \<or> py_in ''1-0-0'' text
        then [''09:00'']
      else if py_in ''qid'' text \<or> py_in ''four'' text
        then [''08:00'', ''12:00'', ''16:00'', ''20:00'']
      else [''09:00''])"

text \<open>
  The decision list as the specification words it: numbered rules, each a set of keywords
  and the times it yields; the first rule with a keyword contained in the text, compared
  without regard to case, decides; without a match the answer is the single time 09:00.
\<close>

definition decision_list :: "(string list \<times> string list) list" where
  "decision_list =
     [([''1-1-1'', ''three'', ''tds''], [''09:00'', ''14:00'', ''20:00'']),
      ([''1-0-1'', ''twice'', ''bid'', ''0-1-1'', ''1-1-0''], [''09:00'', ''20:00'']),
      ([''0-0-1'', ''night''], [''20:00'']),
      ([''morning'', ''1-0-0''], [''09:00'']),
      ([''qid'', ''four''], [''08:00'', ''12:00'', ''16:00'', ''20:00''])]"

definition rule_matches :: "string \<Rightarrow> string list \<times> string list \<Rightarrow> bool" where
  "rule_matches text rule = list_ex (\<lambda>k. py_in k (lower text)) (fst rule)"

definition interpret_spec :: "string \<Rightarrow> string list" where
  "interpret_spec text =
     (case find (rule_matches text) decision_list of
        Some rule \<Rightarrow> snd rule
      | None \<Rightarrow> [''09:00''])"

definition text_of :: "string option \<Rightarrow> string" where
  "text_of frequency_text = (case frequency_text of None \<Rightarrow> [] | Some t \<Rightarrow> t)"

section \<open>Documents and the store\<close>

text \<open>
  The documents of the collections, with the fields the application reads and writes.
  An \<open>ObjectId\<close> is a number; a field read with \<open>data.get(k, '')\<close> or stored without a
  value is a \<open>string option\<close> (\<open>None\<close> for Python's \<open>None\<close>). The document classes
  are declared outside the source file; a new Medication is active, as every query made
  right after its creation expects. The fields \<open>confidence_score\<close>, \<open>created_at\<close> and
  \<open>taken_at\<close>, which no operation modelled here reads, are left out.
\<close>

type_synonym object_id = nat

record user =
  uid :: object_id
  username :: string

record medication =
  mid :: object_id
  m_user_id :: object_id
  user_username :: string
  name :: string
  dosage :: "string option"
  frequency :: "string option"
  instructions :: "string option"
  duration :: "string option"
  source :: string
  m_is_active :: bool

record reminder =
  rid :: object_id
  r_user_id :: object_id
  r_medication_id :: object_id
  r_time :: string
  r_is_active :: bool
  last_sent :: "datetime option"

record medication_log =
  lid :: object_id
  l_user_id :: object_id
  l_medication_id :: object_id
  l_notes :: string

text \<open>
  JSON values of the payloads: a string, \<open>str(oid)\<close> of an ObjectId (\<open>JOid\<close>), null,
  and \<open>med.to_dict()\<close> of a Medication (\<open>JMed\<close>; \<open>to_dict\<close> is declared outside the
  source file). A dict literal is the list of its items, in the order written.
\<close>

datatype json = JStr string | JOid object_id | JNull | JMed medication

type_synonym payload = "(string \<times> json) list"

text \<open>\<open>socketio.emit(event, payload, room=f'user_{id}')\<close>: event, payload, the user of the room.\<close>

type_synonym emission = "string \<times> payload \<times> object_id"

datatype store_op =
  ListReminders | FindMedication object_id | SaveReminder object_id | Emit object_id

datatype error = StoreError store_op | KeyError string

text \<open>
  The state: the collections, what has been emitted to the rooms, the next fresh ObjectId,
  the number of clock readings taken so far, the seconds slept and the errors printed by
  the reminder loop, and the two attributes \<open>is_running\<close> and \<open>socketio\<close> (set or not) of
  the reminder service.
\<close>

record state =
  users :: "user list"
  medications :: "medication list"
  reminders :: "reminder list"
  logs :: "medication_log list"
  emitted :: "emission list"
  next_oid :: object_id
  clock_reads :: nat
  slept :: nat
  printed :: "error list"
  is_running :: bool
  socketio :: bool

text \<open>
  The environment of the scheduler: \<open>clock env k\<close> is what the \<open>k\<close>-th call of
  \<open>datetime.now()\<close> returns, and \<open>raises env op\<close> tells whether the store or socket call
  \<open>op\<close> raises an exception.
\<close>

record env =
  clock :: "nat \<Rightarrow> datetime"
  raises :: "store_op \<Rightarrow> bool"

definition now :: "env \<Rightarrow> state \<Rightarrow> datetime \<times> state" where
  "now e s = (clock e (clock_reads s), s\<lparr>clock_reads := Suc (clock_reads s)\<rparr>)"

text \<open>\<open>Medication.objects(id=i).first()\<close> and \<open>Reminder.objects(id=i).first()\<close>.\<close>

definition find_medication :: "object_id \<Rightarrow> state \<Rightarrow> medication option" where
  "find_medication i s = find (\<lambda>m. mid m = i) (medications s)"

definition get_reminder :: "object_id \<Rightarrow> state \<Rightarrow> reminder option" where
  "get_reminder i s = find (\<lambda>r. rid r = i) (reminders s)"

text \<open>\<open>reminder.save()\<close>: the stored document of that id is replaced (inserted if absent).\<close>

definition save_reminder :: "reminder \<Rightarrow> state \<Rightarrow> state" where
  "save_reminder r s =
     s\<lparr>reminders :=
         (if list_ex (\<lambda>x. rid x = rid r) (reminders s)
          then map (\<lambda>x. if rid x = rid r then r else x) (reminders s)
          else reminders s @ [r])\<rparr>"

definition save_medication :: "medication \<Rightarrow> state \<Rightarrow> state" where
  "save_medication m s =
     s\<lparr>medications :=
         (if list_ex (\<lambda>x. mid x = mid m) (medications s)
          then map (\<lambda>x. if mid x = mid m then m else x) (medications s)
          else medications s @ [m])\<rparr>"

section \<open>The reminder scheduler\<close>

text \<open>\<open>x or ''\<close> on an optional string.\<close>

definition or_empty :: "string option \<Rightarrow> string" where
  "or_empty x = (case x of None \<Rightarrow> [] | Some t \<Rightarrow> t)"

definition alert_payload :: "reminder \<Rightarrow> medication \<Rightarrow> datetime \<Rightarrow> payload" where
  "alert_payload reminder medication stamp =
     [(''type'', JStr ''medication_reminder''),
      (''reminder_id'', JOid (rid reminder)),
      (''medication_id'', JOid (mid medication)),
      (''medication_name'', JStr (name medication)),
      (''dosage'', JStr (or_empty (dosage medication))),
      (''instructions'', JStr (or_empty (instructions medication))),
      (''time'', JStr (r_time reminder)),
      (''timestamp'', JStr (isoformat stamp))]"

text \<open>
  \<open>_send_reminder_alert\<close>. The result is the exception that escaped, if any, and the
  state reached: what was written before an exception stays written.
\<close>

definition send_reminder_alert :: "env \<Rightarrow> reminder \<Rightarrow> state \<Rightarrow> error option \<times> state" where
  "send_reminder_alert e reminder s =
     (if raises e (FindMedication (r_medication_id reminder))
      then (Some (StoreError (FindMedication (r_medication_id reminder))), s)
      else case find_medication (r_medication_id reminder) s of
        None \<Rightarrow> (None, s)
      | Some medication \<Rightarrow>
          (let (t1, s1) = now e s;
               reminder' = reminder\<lparr>last_sent := Some t1\<rparr>
           in if raises e (SaveReminder (rid reminder))
              then (Some (StoreError (SaveReminder (rid reminder))), s1)
              else
                (let s2 = save_reminder reminder' s1;
                     (t2, s3) = now e s2;
                     alert = alert_payload reminder' medication t2
                 in if socketio s3
                    then (if raises e (Emit (rid reminder))
                          then (Some (StoreError (Emit (rid reminder))), s3)
                          else (None, s3\<lparr>emitted := emitted s3 @
                                  [(''medication_reminder'', alert, r_user_id reminder)]\<rparr>))
                    else (None, s3))))"

text \<open>
  The test of \<open>_check_and_send_reminders\<close> on one reminder: its time is the tick's
  \<open>HH:MM\<close>, and it was never sent or was last sent on another date than the tick's.
\<close>

definition is_due :: "datetime \<Rightarrow> string \<Rightarrow> reminder \<Rightarrow> bool" where
  "is_due now_dt now_hm reminder =
     (r_time reminder = now_hm \<and>
      (case last_sent reminder of
         None \<Rightarrow> True
       | Some l \<Rightarrow> date_of l \<noteq> date_of now_dt))"

text \<open>The \<open>for\<close> loop of \<open>_check_and_send_reminders\<close>; an exception ends it.\<close>

fun send_all ::
  "env \<Rightarrow> datetime \<Rightarrow> string \<Rightarrow> reminder list \<Rightarrow> state \<Rightarrow> error option \<times> state" where
  "send_all e now_dt now_hm [] s = (None, s)"
| "send_all e now_dt now_hm (reminder # rest) s =
     (if is_due now_dt now_hm reminder
      then (case send_reminder_alert e reminder s of
              (Some err, s') \<Rightarrow> (Some err, s')
            | (None, s') \<Rightarrow> send_all e now_dt now_hm rest s')
      else send_all e now_dt now_hm rest s)"

text \<open>
  \<open>_check_and_send_reminders\<close>: one tick of the scheduler. The loop runs over the active
  reminders as the query returns them when the loop starts; on its way it writes only the
  reminder it is at.
\<close>

definition check_and_send_reminders :: "env \<Rightarrow> state \<Rightarrow> error option \<times> state" where
  "check_and_send_reminders e s =
     (let (now_dt, s1) = now e s;
          now_hm = strftime_HM now_dt
      in if raises e ListReminders
         then (Some (StoreError ListReminders), s1)
         else send_all e now_dt now_hm (filter r_is_active (reminders s1)) s1)"

text \<open>
  One iteration of \<open>_reminder_loop\<close>: the tick, then \<open>time.sleep(60)\<close>; an exception of
  the tick is printed before the sleep.
\<close>

definition loop_body :: "env \<Rightarrow> state \<Rightarrow> state" where
  "loop_body e s =
     (case check_and_send_reminders e s of
        (None, s') \<Rightarrow> s'\<lparr>slept := slept s' + 60\<rparr>
      | (Some err, s') \<Rightarrow> s'\<lparr>slept := slept s' + 60, printed := printed s' @ [err]\<rparr>)"

text \<open>
  \<open>_reminder_loop\<close>, run for as many iterations as environments are given (one per
  iteration); it stops earlier only when \<open>is_running\<close> is false.
\<close>

fun reminder_loop :: "env list \<Rightarrow> state \<Rightarrow> state" where
  "reminder_loop [] s = s"
| "reminder_loop (e # es) s =
     (if is_running s then reminder_loop es (loop_body e s) else s)"

text \<open>The alerts emitted so far for the reminder of id \<open>i\<close>.\<close>

definition is_alert_for :: "object_id \<Rightarrow> emission \<Rightarrow> bool" where
  "is_alert_for i em =
     (fst em = ''medication_reminder'' \<and>
      map_of (fst (snd em)) ''reminder_id'' = Some (JOid i))"

definition alerts_for :: "object_id \<Rightarrow> state \<Rightarrow> emission list" where
  "alerts_for i s = filter (is_alert_for i) (emitted s)"

section \<open>The request handlers and the startup backfill\<close>

text \<open>
  The handlers run one at a time on the state. A store exception inside a handler, which
  the handler's \<open>except\<close> turns into a 500 answer, is modelled for the scheduler only.
\<close>

text \<open>
  The create-if-absent step written out in \<open>medications\<close>, \<open>upload_prescription\<close> and
  \<open>backfill_reminders_for_all_users\<close>: a Reminder is saved only when the query by
  (user, medication, time) finds none.
\<close>

definition ensure_reminder :: "object_id \<Rightarrow> object_id \<Rightarrow> string \<Rightarrow> state \<Rightarrow> state" where
  "ensure_reminder u m t s =
     (case find (\<lambda>r. r_user_id r = u \<and> r_medication_id r = m \<and> r_time r = t) (reminders s) of
        Some r \<Rightarrow> s
      | None \<Rightarrow>
          s\<lparr>reminders := reminders s @
               [\<lparr>rid = next_oid s, r_user_id = u, r_medication_id = m, r_time = t,
                 r_is_active = True, last_sent = None\<rparr>],
            next_oid := Suc (next_oid s)\<rparr>)"

text \<open>The loop \<open>for t in times\<close> around that step (\<open>ts\<close> is the list \<open>times\<close>).\<close>

definition ensure_reminders :: "object_id \<Rightarrow> object_id \<Rightarrow> string list \<Rightarrow> state \<Rightarrow> state" where
  "ensure_reminders u m ts s = fold (ensure_reminder u m) ts s"

text \<open>
  The JSON body of a posted medication and an item of the extraction's result:
  \<open>md_name\<close> is \<open>data.get('name')\<close>, the other fields are \<open>data.get(k, '')\<close>.
\<close>

record med_data =
  md_name :: "string option"
  md_dosage :: "string option"
  md_frequency :: "string option"
  md_instructions :: "string option"
  md_duration :: "string option"

definition active_named :: "object_id \<Rightarrow> string \<Rightarrow> state \<Rightarrow> medication option" where
  "active_named u n s =
     find (\<lambda>m. m_user_id m = u \<and> name m = n \<and> m_is_active m) (medications s)"

text \<open>\<open>medications\<close>, method POST; the result is the HTTP status and the state.\<close>

definition post_medication :: "user \<Rightarrow> med_data \<Rightarrow> state \<Rightarrow> nat \<times> state" where
  "post_medication current_user data s =
     (case md_name data of
        None \<Rightarrow> (400, s)
      | Some n \<Rightarrow>
          if n = [] then (400, s)
          else (case active_named (uid current_user) n s of
              Some existing \<Rightarrow> (409, s)
            | None \<Rightarrow>
                (let medication =
                       \<lparr>mid = next_oid s, m_user_id = uid current_user,
                        user_username = username current_user, name = n,
                        dosage = md_dosage data, frequency = md_frequency data,
                        instructions = md_instructions data, duration = md_duration data,
                        source = ''manual'', m_is_active = True\<rparr>;
                     s1 = s\<lparr>medications := medications s @ [medication],
                            next_oid := Suc (next_oid s)\<rparr>
                 in (201, ensure_reminders (uid current_user) (mid medication)
                            (parse_frequency_to_times (frequency medication)) s1))))"

text \<open>
  The loop of \<open>upload_prescription\<close> over the extracted medications (the extraction itself
  and the upload record are outside the model); \<open>med_data['name']\<close> raises a KeyError when
  the item has no name, which ends the loop.
\<close>

fun add_extracted :: "user \<Rightarrow> med_data list \<Rightarrow> nat \<Rightarrow> state \<Rightarrow> error option \<times> nat \<times> state" where
  "add_extracted current_user [] added s = (None, added, s)"
| "add_extracted current_user (md # rest) added s =
     (case md_name md of
        None \<Rightarrow> (Some (KeyError ''name''), added, s)
      | Some n \<Rightarrow>
          (case active_named (uid current_user) n s of
             Some existing \<Rightarrow> add_extracted current_user rest added s
           | None \<Rightarrow>
               (let med =
                      \<lparr>mid = next_oid s, m_user_id = uid current_user,
                       user_username = username current_user, name = n,
                       dosage = md_dosage md, frequency = md_frequency md,
                       instructions = md_instructions md, duration = None,
                       source = ''ocr'', m_is_active = True\<rparr>;
                    s1 = s\<lparr>medications := medications s @ [med],
                           next_oid := Suc (next_oid s)\<rparr>;
                    s2 = ensure_reminders (uid current_user) (mid med)
                           (parse_frequency_to_times (frequency med)) s1;
                    s3 = s2\<lparr>emitted := emitted s2 @
                            [(''medication_added'', [(''medication'', JMed med)],
                              uid current_user)]\<rparr>
                in add_extracted current_user rest (Suc added) s3)))"

definition upload_prescription :: "user \<Rightarrow> med_data list \<Rightarrow> state \<Rightarrow> nat \<times> state" where
  "upload_prescription current_user meds s =
     (case add_extracted current_user meds 0 s of
        (None, added, s') \<Rightarrow> (200, s')
      | (Some err, added, s') \<Rightarrow> (500, s'))"

definition owned_medication :: "user \<Rightarrow> object_id \<Rightarrow> state \<Rightarrow> medication option" where
  "owned_medication current_user i s =
     find (\<lambda>m. mid m = i \<and> m_user_id m = uid current_user) (medications s)"

text \<open>\<open>delete_medication\<close>: the medication is flagged inactive, nothing else is written.\<close>

definition delete_medication :: "user \<Rightarrow> object_id \<Rightarrow> state \<Rightarrow> nat \<times> state" where
  "delete_medication current_user medication_id s =
     (case owned_medication current_user medication_id s of
        None \<Rightarrow> (404, s)
      | Some med \<Rightarrow> (200, save_medication (med\<lparr>m_is_active := False\<rparr>) s))"

text \<open>\<open>take_medication\<close>: a MedicationLog is saved and the event emitted.\<close>

definition take_medication :: "user \<Rightarrow> object_id \<Rightarrow> state \<Rightarrow> nat \<times> state" where
  "take_medication current_user medication_id s =
     (case owned_medication current_user medication_id s of
        None \<Rightarrow> (404, s)
      | Some med \<Rightarrow>
          (200, s\<lparr>logs := logs s @
                    [\<lparr>lid = next_oid s, l_user_id = uid current_user,
                      l_medication_id = mid med, l_notes = []\<rparr>],
                  next_oid := Suc (next_oid s),
                  emitted := emitted s @
                    [(''medication_taken'',
                      [(''medication_id'', JOid (mid med)),
                       (''medication_name'', JStr (name med))],
                      uid current_user)]\<rparr>))"

text \<open>\<open>list_reminders\<close>: one dict for each active reminder of the user.\<close>

definition reminder_entry :: "state \<Rightarrow> reminder \<Rightarrow> payload" where
  "reminder_entry s rem =
     (let med = find_medication (r_medication_id rem) s in
      [(''id'', JOid (rid rem)),
       (''medication_id'', JOid (r_medication_id rem)),
       (''medication_name'', JStr (case med of Some m \<Rightarrow> name m | None \<Rightarrow> ''Unknown'')),
       (''time'', JStr (r_time rem)),
       (''last_taken'', (case last_sent rem of Some l \<Rightarrow> JStr (isoformat l) | None \<Rightarrow> JNull)),
       (''next_dose'', JNull)])"

definition list_reminders :: "user \<Rightarrow> state \<Rightarrow> payload list" where
  "list_reminders current_user s =
     map (reminder_entry s)
       (filter (\<lambda>r. r_user_id r = uid current_user \<and> r_is_active r) (reminders s))"

text \<open>\<open>backfill_reminders_for_all_users\<close>.\<close>

definition backfill_medications :: "user \<Rightarrow> state \<Rightarrow> state" where
  "backfill_medications u s =
     fold (\<lambda>m. ensure_reminders (uid u) (mid m) (parse_frequency_to_times (frequency m)))
       (filter (\<lambda>m. m_user_id m = uid u \<and> m_is_active m) (medications s)) s"

definition backfill_reminders_for_all_users :: "state \<Rightarrow> state" where
  "backfill_reminders_for_all_users s = fold backfill_medications (users s) s"

section \<open>Auxiliary notions for the properties\<close>

text \<open>
  The state \<open>_send_reminder_alert\<close> reaches when the medication \<open>m\<close> is found, nothing
  raises and a socket is attached: the reminder saved with the first clock reading, the alert
  emitted with the second.
\<close>

definition sent_state :: "env \<Rightarrow> reminder \<Rightarrow> medication \<Rightarrow> state \<Rightarrow> state" where
  "sent_state e r m s =
     (save_reminder (r\<lparr>last_sent := Some (clock e (clock_reads s))\<rparr>) s)
       \<lparr>clock_reads := Suc (Suc (clock_reads s)),
        emitted := emitted s @
          [(''medication_reminder'',
            alert_payload (r\<lparr>last_sent := Some (clock e (clock_reads s))\<rparr>) m
              (clock e (Suc (clock_reads s))),
            r_user_id r)]\<rparr>"

text \<open>
  What one tick may do to a stored reminder: nothing, or, when the reminder is active and
  due, set its \<open>last_sent\<close>.
\<close>

definition tick_change :: "datetime \<Rightarrow> string \<Rightarrow> reminder \<Rightarrow> reminder \<Rightarrow> bool" where
  "tick_change now_dt now_hm r r' =
     (r' = r \<or> (r_is_active r \<and> is_due now_dt now_hm r \<and> (\<exists>t. r' = r\<lparr>last_sent := Some t\<rparr>)))"

text \<open>The keys of the alert dict, in the order of the source.\<close>

definition alert_keys :: "string list" where
  "alert_keys = [''type'', ''reminder_id'', ''medication_id'', ''medication_name'',
                 ''dosage'', ''instructions'', ''time'', ''timestamp'']"

text \<open>
  A scenario for concrete runs: the user ann posts the medication Aspirin, to be taken
  "twice daily (1-0-1)", then a vitamin for "every morning". The clocks read 17 and
  18 May 2024, 09:00 and 20:00, one second later at each reading.
\<close>

definition ann :: user where
  "ann = \<lparr>uid = 1, username = ''ann''\<rparr>"

definition empty_store :: state where
  "empty_store =
     \<lparr>users = [ann], medications = [], reminders = [], logs = [], emitted = [],
      next_oid = 2, clock_reads = 0, slept = 0, printed = [], is_running = True,
      socketio = True\<rparr>"

definition aspirin :: med_data where
  "aspirin =
     \<lparr>md_name = Some ''Aspirin'', md_dosage = Some ''81mg'',
      md_frequency = Some ''twice daily (1-0-1)'', md_instructions = None,
      md_duration = Some []\<rparr>"

definition vitamin :: med_data where
  "vitamin =
     \<lparr>md_name = Some ''Vitamin D'', md_dosage = Some ''1 tablet'',
      md_frequency = Some ''every Morning'', md_instructions = Some ''with food'',
      md_duration = Some []\<rparr>"

definition store1 :: state where
  "store1 = snd (post_medication ann aspirin empty_store)"

definition store2 :: state where
  "store2 = snd (post_medication ann vitamin store1)"

definition clock_at :: "nat \<Rightarrow> nat \<Rightarrow> nat \<Rightarrow> nat \<Rightarrow> datetime" where
  "clock_at d h mi k =
     \<lparr>year = 2024, month = 5, day = d, hour = h, minute = mi, second = k mod 60,
      microsecond = 0\<rparr>"

definition morning :: env where
  "morning = \<lparr>clock = clock_at 17 9 0, raises = (\<lambda>op. False)\<rparr>"

definition evening :: env where
  "evening = \<lparr>clock = clock_at 17 20 0, raises = (\<lambda>op. False)\<rparr>"

definition next_morning :: env where
  "next_morning = \<lparr>clock = clock_at 18 9 0, raises = (\<lambda>op. False)\<rparr>"

definition morning_save_fails :: env where
  "morning_save_fails = \<lparr>clock = clock_at 17 9 0, raises = (\<lambda>op. op = SaveReminder 3)\<rparr>"

definition store1_deleted :: state where
  "store1_deleted = snd (delete_medication ann 2 store1)"

definition store1_sent :: state where
  "store1_sent = snd (check_and_send_reminders morning store1)"

text \<open>
  The shape of an emitted reminder alert at a tick whose \<open>HH:MM\<close> is \<open>now_hm\<close>: the
  event name, the eight keys, the constant type, the time, and a timestamp that is the ISO
  form of a clock reading.
\<close>

definition alert_shape :: "env \<Rightarrow> string \<Rightarrow> emission \<Rightarrow> bool" where
  "alert_shape e now_hm em =
     (fst em = ''medication_reminder'' \<and>
      map fst (fst (snd em)) = alert_keys \<and>
      map_of (fst (snd em)) ''type'' = Some (JStr ''medication_reminder'') \<and>
      map_of (fst (snd em)) ''time'' = Some (JStr now_hm) \<and>
      (\<exists>i. map_of (fst (snd em)) ''reminder_id'' = Some (JOid i)) \<and>
      (\<exists>i. map_of (fst (snd em)) ''medication_id'' = Some (JOid i)) \<and>
      (\<exists>n. map_of (fst (snd em)) ''medication_name'' = Some (JStr n)) \<and>
      (\<exists>d. map_of (fst (snd em)) ''dosage'' = Some (JStr d)) \<and>
      (\<exists>i. map_of (fst (snd em)) ''instructions'' = Some (JStr i)) \<and>
      (\<exists>k. map_of (fst (snd em)) ''timestamp'' = Some (JStr (isoformat (clock e k)))))"

text \<open>
  The seven fields the specification lists for the alert payload, under the names the code
  gives them (\<open>firedAt\<close> is the code's \<open>timestamp\<close>), and under the specification's
  own names.
\<close>

definition claimed_fields :: "string list" where
  "claimed_fields = [''reminder_id'', ''medication_id'', ''medication_name'', ''dosage'',
                     ''instructions'', ''time'', ''timestamp'']"

definition claimed_fields_spec :: "string list" where
  "claimed_fields_spec = [''reminderId'', ''medicationId'', ''medicationName'', ''dosage'',
                          ''instructions'', ''time'', ''firedAt'']"

text \<open>
  The key of a reminder, whether a reminder of a key is stored (what the query of the
  create-if-absent step asks), and how many are.
\<close>

definition reminder_key :: "reminder \<Rightarrow> object_id \<times> object_id \<times> string" where
  "reminder_key r = (r_user_id r, r_medication_id r, r_time r)"

definition has_key :: "object_id \<Rightarrow> object_id \<Rightarrow> string \<Rightarrow> state \<Rightarrow> bool" where
  "has_key u m t s = list_ex (\<lambda>r. reminder_key r = (u, m, t)) (reminders s)"

definition key_count :: "object_id \<Rightarrow> object_id \<Rightarrow> string \<Rightarrow> state \<Rightarrow> nat" where
  "key_count u m t s = length (filter (\<lambda>r. reminder_key r = (u, m, t)) (reminders s))"

text \<open>The active medications of a user, as the backfill queries them.\<close>

definition user_medications :: "user \<Rightarrow> state \<Rightarrow> medication list" where
  "user_medications u s = filter (\<lambda>m. m_user_id m = uid u \<and> m_is_active m) (medications s)"

text \<open>
  The reminders the frequency of each of these medications asks for are all stored.
\<close>

definition covered :: "user \<Rightarrow> medication list \<Rightarrow> state \<Rightarrow> bool" where
  "covered u ms s =
     list_all (\<lambda>m. list_all (\<lambda>t. has_key (uid u) (mid m) t s)
                      (parse_frequency_to_times (frequency m))) ms"

text \<open>
  The invariant of the store: ObjectIds are below the next fresh one and are not shared by
  two medications or two reminders; every reminder belongs to a stored medication of the
  same user and its time is one of the times the frequency interpreter gives for that
  medication's frequency; and no two reminders have the same (user, medication, time).
\<close>

definition store_inv :: "state \<Rightarrow> bool" where
  "store_inv s =
     (list_all (\<lambda>m. mid m < next_oid s) (medications s) \<and>
      list_all (\<lambda>r. rid r < next_oid s) (reminders s) \<and>
      distinct (map mid (medications s)) \<and>
      distinct (map rid (reminders s)) \<and>
      list_all (\<lambda>r. list_ex (\<lambda>m. mid m = r_medication_id r \<and> m_user_id m = r_user_id r \<and>
                              r_time r \<in> set (parse_frequency_to_times (frequency m)))
                        (medications s)) (reminders s) \<and>
      distinct (map reminder_key (reminders s)))"

section \<open>Properties of the frequency interpreter\<close>

lemma parse_is_interpret:
  "parse_frequency_to_times ft = interpret_spec (text_of ft)"
  by (simp add: parse_frequency_to_times_def interpret_spec_def decision_list_def
      rule_matches_def text_of_def Let_def)

lemma parse_cases:
  "parse_frequency_to_times ft \<in>
     {[''09:00'', ''14:00'', ''20:00''], [''09:00'', ''20:00''], [''20:00''], [''09:00''],
      [''08:00'', ''12:00'', ''16:00'', ''20:00'']}"
  by (simp add: parse_frequency_to_times_def Let_def)

lemma parse_nonempty: "parse_frequency_to_times ft \<noteq> []"
  using parse_cases [of ft] by auto

lemma parse_hhmm: "list_all is_hhmm (parse_frequency_to_times ft)"
proof -
  have "list_all is_hhmm xs"
    if "xs \<in> {[''09:00'', ''14:00'', ''20:00''], [''09:00'', ''20:00''], [''20:00''],
               [''09:00''], [''08:00'', ''12:00'', ''16:00'', ''20:00'']}" for xs
    using that by (auto simp: is_digit_def)
  then show ?thesis using parse_cases [of ft] by blast
qed

lemma parse_lower:
  "lower t = lower u \<Longrightarrow>
   parse_frequency_to_times (Some t) = parse_frequency_to_times (Some u)"
  by (simp add: parse_frequency_to_times_def)

lemma parse_example:
  "parse_frequency_to_times (Some ''1-1-1 bid'') = [''09:00'', ''14:00'', ''20:00'']"
  by (simp add: parse_frequency_to_times_def lower_def lower_char_def)

text \<open>
  Claim C4. For every input (the absent text, the empty text and unrecognised text
  included) the frequency interpreter returns a non-empty list of well-formed HH:MM times,
  and that list is the one of the first matching rule of the decision list, or 09:00 alone
  when no rule matches; texts that differ only in the case of their letters get the same
  answer; and the text "1-1-1 bid" is decided by rule 1.
\<close>

theorem frequency_interpreter_decision_list:
  "parse_frequency_to_times ft = interpret_spec (text_of ft) \<and>
   parse_frequency_to_times ft \<noteq> [] \<and>
   list_all is_hhmm (parse_frequency_to_times ft) \<and>
   (find (rule_matches (text_of ft)) decision_list = None \<longrightarrow>
      parse_frequency_to_times ft = [''09:00'']) \<and>
   (lower t = lower u \<longrightarrow>
      parse_frequency_to_times (Some t) = parse_frequency_to_times (Some u)) \<and>
   parse_frequency_to_times (Some ''1-1-1 bid'') = [''09:00'', ''14:00'', ''20:00'']"
proof -
  have "find (rule_matches (text_of ft)) decision_list = None \<Longrightarrow>
        parse_frequency_to_times ft = [''09:00'']"
    by (simp add: parse_is_interpret interpret_spec_def)
  then show ?thesis
    using parse_is_interpret parse_nonempty parse_hhmm parse_lower parse_example
    by blast
qed

theorem frequency_interpreter_decision_list_witness:
  "find (rule_matches (text_of (Some ''as needed''))) decision_list = None \<and>
   lower ''TWICE Daily'' = lower ''twice daily'' \<and>
   parse_frequency_to_times (Some ''as needed'') = [''09:00''] \<and>
   parse_frequency_to_times (Some ''TWICE Daily'') = [''09:00'', ''20:00''] \<and>
   parse_frequency_to_times (Some ''TWICE Daily'') =
     parse_frequency_to_times (Some ''twice daily'') \<and>
   parse_frequency_to_times None = [''09:00'']"
proof -
  have a: "find (rule_matches (text_of (Some ''as needed''))) decision_list = None"
    by (simp add: rule_matches_def decision_list_def text_of_def lower_def lower_char_def)
  have b: "lower ''TWICE Daily'' = lower ''twice daily''"
    by (simp add: lower_def lower_char_def)
  have c: "parse_frequency_to_times (Some ''twice daily'') = [''09:00'', ''20:00'']"
    by (simp add: parse_frequency_to_times_def lower_def lower_char_def)
  have d: "parse_frequency_to_times None = [''09:00'']"
    by (simp add: parse_frequency_to_times_def lower_def)
  have e: "parse_frequency_to_times (Some ''as needed'') = [''09:00''] \<and>
      parse_frequency_to_times (Some ''TWICE Daily'') =
        parse_frequency_to_times (Some ''twice daily'')"
    using frequency_interpreter_decision_list
      [of "Some ''as needed''" "''TWICE Daily''" "''twice daily''"] a b
    by blast
  show ?thesis
    using a b c d e by simp
qed

section \<open>Properties of the scheduler\<close>

lemma find_map_other:
  "(\<And>x. P (f x) = P x) \<Longrightarrow> (\<And>x. P x \<Longrightarrow> f x = x) \<Longrightarrow> find P (map f xs) = find P xs"
  by (induction xs) auto

lemma find_snoc:
  "find P (xs @ [y]) = (case find P xs of Some x \<Rightarrow> Some x | None \<Rightarrow> if P y then Some y else None)"
  by (induction xs) auto

lemma list_ex_find_None: "\<not> list_ex P xs \<Longrightarrow> find P xs = None"
  by (induction xs) auto

lemma find_map_replace:
  "list_ex (\<lambda>x. g x = g r) xs \<Longrightarrow>
   find (\<lambda>x. g x = g r) (map (\<lambda>x. if g x = g r then r else x) xs) = Some r"
  by (induction xs) auto

lemma get_reminder_save_other:
  "rid r \<noteq> i \<Longrightarrow> get_reminder i (save_reminder r s) = get_reminder i s"
proof -
  assume a: "rid r \<noteq> i"
  have "find (\<lambda>x. rid x = i) (map (\<lambda>x. if rid x = rid r then r else x) xs) =
        find (\<lambda>x. rid x = i) xs" for xs
    using a by (intro find_map_other) auto
  then show ?thesis
    using a by (simp add: get_reminder_def save_reminder_def find_snoc split: option.split)
qed

lemma get_reminder_save_same:
  "get_reminder (rid r) (save_reminder r s) = Some r"
  by (simp add: get_reminder_def save_reminder_def find_snoc find_map_replace list_ex_find_None)

lemma save_reminder_fields [simp]:
  "medications (save_reminder r s) = medications s"
  "logs (save_reminder r s) = logs s"
  "users (save_reminder r s) = users s"
  "emitted (save_reminder r s) = emitted s"
  "next_oid (save_reminder r s) = next_oid s"
  "clock_reads (save_reminder r s) = clock_reads s"
  "slept (save_reminder r s) = slept s"
  "printed (save_reminder r s) = printed s"
  "is_running (save_reminder r s) = is_running s"
  "socketio (save_reminder r s) = socketio s"
  by (simp_all add: save_reminder_def)

lemma save_reminder_clock [simp]:
  "save_reminder r (s\<lparr>clock_reads := c\<rparr>) = (save_reminder r s)\<lparr>clock_reads := c\<rparr>"
  by (simp add: save_reminder_def)

lemma get_reminder_upd [simp]:
  "get_reminder i (s\<lparr>clock_reads := c\<rparr>) = get_reminder i s"
  "get_reminder i (s\<lparr>emitted := em\<rparr>) = get_reminder i s"
  by (simp_all add: get_reminder_def)

lemma alerts_for_upd [simp]:
  "alerts_for i (s\<lparr>clock_reads := c\<rparr>) = alerts_for i s"
  "alerts_for i (save_reminder r s) = alerts_for i s"
  by (simp_all add: alerts_for_def)

lemma find_medication_upd [simp]:
  "find_medication i (s\<lparr>clock_reads := c\<rparr>) = find_medication i s"
  "find_medication i (s\<lparr>emitted := em\<rparr>) = find_medication i s"
  "find_medication i (save_reminder r s) = find_medication i s"
  by (simp_all add: find_medication_def)

lemma is_alert_for_payload [simp]:
  "is_alert_for i (''medication_reminder'', alert_payload r m t, u) = (rid r = i)"
  by (simp add: is_alert_for_def alert_payload_def)

lemma send_fires:
  assumes "\<not> raises e (FindMedication (r_medication_id r))"
    and "\<not> raises e (SaveReminder (rid r))" and "\<not> raises e (Emit (rid r))"
    and "find_medication (r_medication_id r) s = Some m" and "socketio s"
  shows "send_reminder_alert e r s = (None, sent_state e r m s)"
  using assms by (simp add: send_reminder_alert_def now_def sent_state_def Let_def)

lemma send_missing:
  "find_medication (r_medication_id r) s = None \<Longrightarrow>
   send_reminder_alert e r s =
     (if raises e (FindMedication (r_medication_id r))
      then Some (StoreError (FindMedication (r_medication_id r))) else None, s)"
  by (simp add: send_reminder_alert_def)

lemma send_other:
  assumes "send_reminder_alert e r s = (err, s')" and "rid r \<noteq> i"
  shows "get_reminder i s' = get_reminder i s \<and> alerts_for i s' = alerts_for i s"
  using assms
  by (auto simp: send_reminder_alert_def now_def Let_def get_reminder_save_other alerts_for_def
      split: if_splits option.splits)

lemma send_frame:
  assumes "send_reminder_alert e r s = (err, s')"
  shows "medications s' = medications s \<and> logs s' = logs s \<and> users s' = users s \<and>
         next_oid s' = next_oid s \<and> socketio s' = socketio s \<and>
         is_running s' = is_running s \<and> slept s' = slept s \<and> printed s' = printed s \<and>
         clock_reads s \<le> clock_reads s' \<and> clock_reads s' \<le> clock_reads s + 2"
  using assms
  by (auto simp: send_reminder_alert_def now_def Let_def split: if_splits option.splits)

lemma send_nofault:
  "\<forall>op. \<not> raises e op \<Longrightarrow> fst (send_reminder_alert e r s) = None"
  by (simp add: send_reminder_alert_def now_def Let_def split: option.splits)

lemma send_all_frame:
  "send_all e d hm rs s = (err, s') \<Longrightarrow>
     medications s' = medications s \<and> logs s' = logs s \<and> users s' = users s \<and>
     next_oid s' = next_oid s \<and> socketio s' = socketio s \<and>
     is_running s' = is_running s \<and> slept s' = slept s \<and> printed s' = printed s \<and>
     clock_reads s \<le> clock_reads s' \<and> clock_reads s' \<le> clock_reads s + 2 * length rs"
proof (induction rs arbitrary: s)
  case Nil
  then show ?case by simp
next
  case (Cons r rs)
  show ?case
  proof (cases "is_due d hm r")
    case False
    with Cons.prems have "send_all e d hm rs s = (err, s')" by simp
    from Cons.IH [OF this] show ?thesis by simp
  next
    case True
    obtain e1 s1 where s1: "send_reminder_alert e r s = (e1, s1)" by force
    note f1 = send_frame [OF s1]
    show ?thesis
    proof (cases e1)
      case None
      with Cons.prems True s1 have "send_all e d hm rs s1 = (err, s')" by simp
      from Cons.IH [OF this] f1 show ?thesis by simp
    next
      case (Some x)
      with Cons.prems True s1 have "s' = s1" by simp
      with f1 show ?thesis by simp
    qed
  qed
qed

lemma send_all_untouched:
  "\<forall>x\<in>set rs. is_due d hm x \<longrightarrow> rid x \<noteq> i \<Longrightarrow> send_all e d hm rs s = (err, s') \<Longrightarrow>
   get_reminder i s' = get_reminder i s \<and> alerts_for i s' = alerts_for i s"
proof (induction rs arbitrary: s)
  case Nil
  then show ?case by simp
next
  case (Cons r rs)
  from Cons.prems(1) have rest: "\<forall>x\<in>set rs. is_due d hm x \<longrightarrow> rid x \<noteq> i" by simp
  show ?case
  proof (cases "is_due d hm r")
    case False
    with Cons.prems have "send_all e d hm rs s = (err, s')" by simp
    from Cons.IH [OF rest this] show ?thesis .
  next
    case True
    with Cons.prems(1) have ne: "rid r \<noteq> i" by simp
    obtain e1 s1 where s1: "send_reminder_alert e r s = (e1, s1)" by force
    note o1 = send_other [OF s1 ne]
    show ?thesis
    proof (cases e1)
      case None
      with Cons.prems True s1 have "send_all e d hm rs s1 = (err, s')" by simp
      from Cons.IH [OF rest this] o1 show ?thesis by simp
    next
      case (Some x)
      with Cons.prems True s1 have "s' = s1" by simp
      with o1 show ?thesis by simp
    qed
  qed
qed

lemma send_all_nofault:
  "\<forall>op. \<not> raises e op \<Longrightarrow> fst (send_all e d hm rs s) = None"
proof (induction rs arbitrary: s)
  case Nil
  then show ?case by simp
next
  case (Cons r rs)
  obtain e1 s1 where s1: "send_reminder_alert e r s = (e1, s1)" by force
  with send_nofault [OF Cons.prems, of r s] have "e1 = None" by simp
  with s1 Cons.IH [OF Cons.prems] show ?case by simp
qed

lemma sent_state_reminder:
  "get_reminder (rid r) (sent_state e r m s) = Some (r\<lparr>last_sent := Some (clock e (clock_reads s))\<rparr>)"
  using get_reminder_save_same [of "r\<lparr>last_sent := Some (clock e (clock_reads s))\<rparr>" s]
  by (simp add: sent_state_def)

lemma sent_state_alerts:
  "alerts_for (rid r) (sent_state e r m s) = alerts_for (rid r) s @
     [(''medication_reminder'',
       alert_payload (r\<lparr>last_sent := Some (clock e (clock_reads s))\<rparr>) m
         (clock e (Suc (clock_reads s))), r_user_id r)]"
  by (simp add: sent_state_def alerts_for_def)

lemma send_all_fires:
  assumes "\<forall>op. \<not> raises e op" and "r \<in> set rs" and "distinct (map rid rs)"
    and "is_due d hm r" and "find_medication (r_medication_id r) s = Some m" and "socketio s"
  shows "\<exists>s' k. send_all e d hm rs s = (None, s') \<and>
           clock_reads s \<le> k \<and> k < clock_reads s + 2 * length rs \<and>
           get_reminder (rid r) s' = Some (r\<lparr>last_sent := Some (clock e k)\<rparr>) \<and>
           alerts_for (rid r) s' = alerts_for (rid r) s @
             [(''medication_reminder'',
               alert_payload (r\<lparr>last_sent := Some (clock e k)\<rparr>) m (clock e (Suc k)),
               r_user_id r)]"
  using assms(2,3,5,6)
proof (induction rs arbitrary: s)
  case Nil
  then show ?case by simp
next
  case (Cons x xs)
  show ?case
  proof (cases "x = r")
    case True
    have fire: "send_reminder_alert e r s = (None, sent_state e r m s)"
      using assms(1) Cons.prems by (intro send_fires) auto
    obtain e2 s2 where s2: "send_all e d hm xs (sent_state e r m s) = (e2, s2)" by force
    with send_all_nofault [OF assms(1), of d hm xs "sent_state e r m s"] have e2: "e2 = None"
      by simp
    from Cons.prems(2) True have "rid r \<notin> rid ` set xs" by simp
    then have "\<forall>y\<in>set xs. is_due d hm y \<longrightarrow> rid y \<noteq> rid r" by (metis imageI)
    from send_all_untouched [OF this s2]
    have "get_reminder (rid r) s2 = get_reminder (rid r) (sent_state e r m s)"
      and "alerts_for (rid r) s2 = alerts_for (rid r) (sent_state e r m s)" by simp_all
    then have "send_all e d hm (x # xs) s = (None, s2) \<and>
           clock_reads s \<le> clock_reads s \<and> clock_reads s < clock_reads s + 2 * length (x # xs) \<and>
           get_reminder (rid r) s2 = Some (r\<lparr>last_sent := Some (clock e (clock_reads s))\<rparr>) \<and>
           alerts_for (rid r) s2 = alerts_for (rid r) s @
             [(''medication_reminder'',
               alert_payload (r\<lparr>last_sent := Some (clock e (clock_reads s))\<rparr>) m
                 (clock e (Suc (clock_reads s))), r_user_id r)]"
      using True assms(4) fire s2 e2 by (simp add: sent_state_reminder sent_state_alerts)
    then show ?thesis by blast
  next
    case False
    with Cons.prems have rin: "r \<in> set xs" and dist: "distinct (map rid xs)"
      and ne: "rid x \<noteq> rid r" by auto
    show ?thesis
    proof (cases "is_due d hm x")
      case nd: False
      from Cons.IH [OF rin dist Cons.prems(3,4)] obtain s' k where
        "send_all e d hm xs s = (None, s')" "clock_reads s \<le> k"
        "k < clock_reads s + 2 * length xs"
        "get_reminder (rid r) s' = Some (r\<lparr>last_sent := Some (clock e k)\<rparr>)"
        "alerts_for (rid r) s' = alerts_for (rid r) s @
             [(''medication_reminder'',
               alert_payload (r\<lparr>last_sent := Some (clock e k)\<rparr>) m (clock e (Suc k)),
               r_user_id r)]" by blast
      then have "send_all e d hm (x # xs) s = (None, s') \<and> clock_reads s \<le> k \<and>
        k < clock_reads s + 2 * length (x # xs) \<and>
        get_reminder (rid r) s' = Some (r\<lparr>last_sent := Some (clock e k)\<rparr>) \<and>
        alerts_for (rid r) s' = alerts_for (rid r) s @
             [(''medication_reminder'',
               alert_payload (r\<lparr>last_sent := Some (clock e k)\<rparr>) m (clock e (Suc k)),
               r_user_id r)]" using nd by simp
      then show ?thesis by blast
    next
      case due: True
      obtain e1 s1 where s1: "send_reminder_alert e x s = (e1, s1)" by force
      with send_nofault [OF assms(1), of x s] have e1: "e1 = None" by simp
      note f1 = send_frame [OF s1] and o1 = send_other [OF s1 ne]
      have m1: "find_medication (r_medication_id r) s1 = Some m"
        using f1 Cons.prems(3) by (simp add: find_medication_def)
      have so1: "socketio s1" using f1 Cons.prems(4) by simp
      from Cons.IH [OF rin dist m1 so1] obtain s' k where
        "send_all e d hm xs s1 = (None, s')" "clock_reads s1 \<le> k"
        "k < clock_reads s1 + 2 * length xs"
        "get_reminder (rid r) s' = Some (r\<lparr>last_sent := Some (clock e k)\<rparr>)"
        "alerts_for (rid r) s' = alerts_for (rid r) s1 @
             [(''medication_reminder'',
               alert_payload (r\<lparr>last_sent := Some (clock e k)\<rparr>) m (clock e (Suc k)),
               r_user_id r)]" by blast
      then have "send_all e d hm (x # xs) s = (None, s') \<and> clock_reads s \<le> k \<and>
        k < clock_reads s + 2 * length (x # xs) \<and>
        get_reminder (rid r) s' = Some (r\<lparr>last_sent := Some (clock e k)\<rparr>) \<and>
        alerts_for (rid r) s' = alerts_for (rid r) s @
             [(''medication_reminder'',
               alert_payload (r\<lparr>last_sent := Some (clock e k)\<rparr>) m (clock e (Suc k)),
               r_user_id r)]" using due s1 e1 f1 o1 by simp
      then show ?thesis by blast
    qed
  qed
qed

section \<open>Concrete runs and the tick as a whole\<close>

lemmas scenario_defs = ann_def empty_store_def aspirin_def vitamin_def clock_at_def
  morning_def evening_def next_morning_def morning_save_fails_def

lemmas eval_defs = post_medication_def active_named_def ensure_reminders_def ensure_reminder_def
  parse_frequency_to_times_def lower_def lower_char_def

lemma store1_eq:
  "store1 =
     \<lparr>users = [\<lparr>uid = 1, username = ''ann''\<rparr>],
      medications =
        [\<lparr>mid = 2, m_user_id = 1, user_username = ''ann'', name = ''Aspirin'',
          dosage = Some ''81mg'', frequency = Some ''twice daily (1-0-1)'',
          instructions = None, duration = Some [], source = ''manual'', m_is_active = True\<rparr>],
      reminders =
        [\<lparr>rid = 3, r_user_id = 1, r_medication_id = 2, r_time = ''09:00'',
          r_is_active = True, last_sent = None\<rparr>,
         \<lparr>rid = 4, r_user_id = 1, r_medication_id = 2, r_time = ''20:00'',
          r_is_active = True, last_sent = None\<rparr>],
      logs = [], emitted = [], next_oid = 5, clock_reads = 0, slept = 0, printed = [],
      is_running = True, socketio = True\<rparr>"
  by (simp add: store1_def scenario_defs eval_defs)

lemma store2_eq:
  "store2 =
     \<lparr>users = [\<lparr>uid = 1, username = ''ann''\<rparr>],
      medications =
        [\<lparr>mid = 2, m_user_id = 1, user_username = ''ann'', name = ''Aspirin'',
          dosage = Some ''81mg'', frequency = Some ''twice daily (1-0-1)'',
          instructions = None, duration = Some [], source = ''manual'', m_is_active = True\<rparr>,
         \<lparr>mid = 5, m_user_id = 1, user_username = ''ann'', name = ''Vitamin D'',
          dosage = Some ''1 tablet'', frequency = Some ''every Morning'',
          instructions = Some ''with food'', duration = Some [], source = ''manual'',
          m_is_active = True\<rparr>],
      reminders =
        [\<lparr>rid = 3, r_user_id = 1, r_medication_id = 2, r_time = ''09:00'',
          r_is_active = True, last_sent = None\<rparr>,
         \<lparr>rid = 4, r_user_id = 1, r_medication_id = 2, r_time = ''20:00'',
          r_is_active = True, last_sent = None\<rparr>,
         \<lparr>rid = 6, r_user_id = 1, r_medication_id = 5, r_time = ''09:00'',
          r_is_active = True, last_sent = None\<rparr>],
      logs = [], emitted = [], next_oid = 7, clock_reads = 0, slept = 0, printed = [],
      is_running = True, socketio = True\<rparr>"
  by (simp add: store2_def store1_eq scenario_defs eval_defs)

lemmas tick_defs = check_and_send_reminders_def now_def strftime_HM_def pad2_def digit_def
  is_due_def date_of_def send_reminder_alert_def find_medication_def save_reminder_def
  alert_payload_def or_empty_def isoformat_def pad4_def Let_def

lemma get_reminder_mem:
  "distinct (map rid (reminders s)) \<Longrightarrow> r \<in> set (reminders s) \<Longrightarrow> get_reminder (rid r) s = Some r"
proof -
  have "distinct (map rid xs) \<Longrightarrow> r \<in> set xs \<Longrightarrow> find (\<lambda>x. rid x = rid r) xs = Some r" for xs
    by (induction xs) (auto simp: image_iff)
  then show "distinct (map rid (reminders s)) \<Longrightarrow> r \<in> set (reminders s) \<Longrightarrow> get_reminder (rid r) s = Some r"
    by (simp add: get_reminder_def)
qed

lemma tick_fires:
  assumes dist: "distinct (map rid (reminders s))"
    and mem: "r \<in> set (reminders s)" and act: "r_is_active r"
    and due: "is_due (clock e (clock_reads s)) (strftime_HM (clock e (clock_reads s))) r"
    and med: "find_medication (r_medication_id r) s = Some m"
    and sock: "socketio s"
    and nofault: "\<forall>op. \<not> raises e op"
  shows "\<exists>s' k. check_and_send_reminders e s = (None, s') \<and>
           clock_reads s < k \<and> k \<le> clock_reads s + 2 * length (reminders s) \<and>
           get_reminder (rid r) s' = Some (r\<lparr>last_sent := Some (clock e k)\<rparr>) \<and>
           alerts_for (rid r) s' = alerts_for (rid r) s @
             [(''medication_reminder'',
               alert_payload (r\<lparr>last_sent := Some (clock e k)\<rparr>) m (clock e (Suc k)),
               r_user_id r)]"
proof -
  let ?s1 = "s\<lparr>clock_reads := Suc (clock_reads s)\<rparr>"
  let ?rs = "filter r_is_active (reminders s)"
  have tick: "check_and_send_reminders e s =
      send_all e (clock e (clock_reads s)) (strftime_HM (clock e (clock_reads s))) ?rs ?s1"
    using nofault by (simp add: check_and_send_reminders_def now_def)
  have a: "r \<in> set ?rs" using mem act by simp
  have b: "distinct (map rid ?rs)" using dist by (simp add: distinct_map_filter)
  have c: "find_medication (r_medication_id r) ?s1 = Some m" using med by simp
  have d: "socketio ?s1" using sock by simp
  from send_all_fires [OF nofault a b due c d] obtain s' k where
    r: "send_all e (clock e (clock_reads s)) (strftime_HM (clock e (clock_reads s))) ?rs ?s1 = (None, s')"
      "clock_reads ?s1 \<le> k" "k < clock_reads ?s1 + 2 * length ?rs"
      "get_reminder (rid r) s' = Some (r\<lparr>last_sent := Some (clock e k)\<rparr>)"
      "alerts_for (rid r) s' = alerts_for (rid r) ?s1 @
             [(''medication_reminder'',
               alert_payload (r\<lparr>last_sent := Some (clock e k)\<rparr>) m (clock e (Suc k)),
               r_user_id r)]" by blast
  have len: "length ?rs \<le> length (reminders s)" by simp
  from r(2) have k1: "clock_reads s < k" by simp
  from r(3) len have k2: "k \<le> clock_reads s + 2 * length (reminders s)"
    by (simp del: length_filter_le)
  note k1 k2
  with r(1,4,5) tick show ?thesis by auto
qed

lemma tick_skips:
  assumes dist: "distinct (map rid (reminders s))"
    and mem: "r \<in> set (reminders s)"
    and nd: "\<not> r_is_active r \<or> \<not> is_due (clock e (clock_reads s)) (strftime_HM (clock e (clock_reads s))) r"
    and tick: "check_and_send_reminders e s = (err, s')"
  shows "get_reminder (rid r) s' = Some r \<and> alerts_for (rid r) s' = alerts_for (rid r) s"
proof -
  let ?s1 = "s\<lparr>clock_reads := Suc (clock_reads s)\<rparr>"
  let ?rs = "filter r_is_active (reminders s)"
  let ?d = "clock e (clock_reads s)"
  have g: "get_reminder (rid r) s = Some r" using dist mem by (rule get_reminder_mem)
  show ?thesis
  proof (cases "raises e ListReminders")
    case True
    with tick have "s' = ?s1" by (simp add: check_and_send_reminders_def now_def)
    with g show ?thesis by simp
  next
    case False
    with tick have sa: "send_all e ?d (strftime_HM ?d) ?rs ?s1 = (err, s')"
      by (simp add: check_and_send_reminders_def now_def)
    have "\<forall>x\<in>set ?rs. is_due ?d (strftime_HM ?d) x \<longrightarrow> rid x \<noteq> rid r"
    proof (intro ballI impI notI)
      fix x assume x: "x \<in> set ?rs" "is_due ?d (strftime_HM ?d) x" "rid x = rid r"
      from x(1) have "x \<in> set (reminders s)" "r_is_active x" by simp_all
      with dist mem x(3) have "x = r" by (meson distinct_map inj_onD)
      with x(2) \<open>r_is_active x\<close> nd show False by simp
    qed
    from send_all_untouched [OF this sa] g show ?thesis by simp
  qed
qed


text \<open>
  Claim C1. A stored, active reminder whose time is the tick's \<open>HH:MM\<close> and that was
  never sent, or was last sent on another date than the tick's, is fired by one tick: the
  tick ends without an exception, exactly one alert for the reminder is appended to what was
  emitted, and the stored reminder differs only in \<open>last_sent\<close>, now a reading of the clock
  taken during the tick, on the tick's date. The conditions: the reminder's medication is
  found, a socket is attached, no store or socket call raises, and the clock stays on
  the tick's date while the tick runs.
\<close>

theorem tick_fires_due_reminder:
  assumes "distinct (map rid (reminders s))"
    and "r \<in> set (reminders s)" and "r_is_active r"
    and "r_time r = strftime_HM (clock e (clock_reads s))"
    and "last_sent r = None \<or>
         (\<exists>l. last_sent r = Some l \<and> date_of l \<noteq> date_of (clock e (clock_reads s)))"
    and "find_medication (r_medication_id r) s = Some m"
    and "socketio s"
    and "\<forall>op. \<not> raises e op"
    and "\<forall>k. clock_reads s < k \<and> k \<le> clock_reads s + 2 * length (reminders s) \<longrightarrow>
             date_of (clock e k) = date_of (clock e (clock_reads s))"
  shows "\<exists>s' k. check_and_send_reminders e s = (None, s') \<and>
           get_reminder (rid r) s' = Some (r\<lparr>last_sent := Some (clock e k)\<rparr>) \<and>
           date_of (clock e k) = date_of (clock e (clock_reads s)) \<and>
           alerts_for (rid r) s' = alerts_for (rid r) s @
             [(''medication_reminder'',
               alert_payload (r\<lparr>last_sent := Some (clock e k)\<rparr>) m (clock e (Suc k)),
               r_user_id r)]"
proof -
  have due: "is_due (clock e (clock_reads s)) (strftime_HM (clock e (clock_reads s))) r"
    using assms(4,5) by (auto simp: is_due_def)
  from tick_fires [OF assms(1,2,3) due assms(6,7,8)] obtain s' k where
    r: "check_and_send_reminders e s = (None, s')"
      "clock_reads s < k" "k \<le> clock_reads s + 2 * length (reminders s)"
      "get_reminder (rid r) s' = Some (r\<lparr>last_sent := Some (clock e k)\<rparr>)"
      "alerts_for (rid r) s' = alerts_for (rid r) s @
             [(''medication_reminder'',
               alert_payload (r\<lparr>last_sent := Some (clock e k)\<rparr>) m (clock e (Suc k)),
               r_user_id r)]" by blast
  from assms(9) r(2,3) have "date_of (clock e k) = date_of (clock e (clock_reads s))" by blast
  with r(1,4,5) show ?thesis by blast
qed

theorem tick_fires_due_reminder_witness:
  "alerts_for 3 store1 = [] \<and>
   length (alerts_for 3 (snd (check_and_send_reminders morning store1))) = 1 \<and>
   (\<exists>k. get_reminder 3 (snd (check_and_send_reminders morning store1)) =
      Some \<lparr>rid = 3, r_user_id = 1, r_medication_id = 2, r_time = ''09:00'',
            r_is_active = True, last_sent = Some (clock_at 17 9 0 k)\<rparr>)"
proof -
  let ?r = "\<lparr>rid = 3, r_user_id = 1, r_medication_id = 2, r_time = ''09:00'',
             r_is_active = True, last_sent = None\<rparr>"
  let ?m = "\<lparr>mid = 2, m_user_id = 1, user_username = ''ann'', name = ''Aspirin'',
          dosage = Some ''81mg'', frequency = Some ''twice daily (1-0-1)'',
          instructions = None, duration = Some [], source = ''manual'', m_is_active = True\<rparr>"
  have h1: "distinct (map rid (reminders store1))" by (simp add: store1_eq)
  have h2: "?r \<in> set (reminders store1)" by (simp add: store1_eq)
  have h3: "r_is_active ?r" by simp
  have h4: "r_time ?r = strftime_HM (clock morning (clock_reads store1))"
    by (simp add: store1_eq scenario_defs strftime_HM_def pad2_def digit_def)
  have h5: "last_sent ?r = None \<or>
         (\<exists>l. last_sent ?r = Some l \<and> date_of l \<noteq> date_of (clock morning (clock_reads store1)))"
    by simp
  have h6: "find_medication (r_medication_id ?r) store1 = Some ?m"
    by (simp add: store1_eq find_medication_def)
  have h7: "socketio store1" by (simp add: store1_eq)
  have h8: "\<forall>op. \<not> raises morning op" by (simp add: morning_def)
  have h9: "\<forall>k. clock_reads store1 < k \<and> k \<le> clock_reads store1 + 2 * length (reminders store1) \<longrightarrow>
             date_of (clock morning k) = date_of (clock morning (clock_reads store1))"
    by (simp add: scenario_defs date_of_def)
  have a0: "alerts_for 3 store1 = []" by (simp add: store1_eq alerts_for_def)
  from tick_fires_due_reminder [OF h1 h2 h3 h4 h5 h6 h7 h8 h9] obtain s' k where
    r: "check_and_send_reminders morning store1 = (None, s')"
      "get_reminder (rid ?r) s' = Some (?r\<lparr>last_sent := Some (clock morning k)\<rparr>)"
      "alerts_for (rid ?r) s' = alerts_for (rid ?r) store1 @
             [(''medication_reminder'',
               alert_payload (?r\<lparr>last_sent := Some (clock morning k)\<rparr>) ?m (clock morning (Suc k)),
               r_user_id ?r)]" by blast
  have sn: "snd (check_and_send_reminders morning store1) = s'" by (simp add: r(1))
  have ck: "clock morning k = clock_at 17 9 0 k" by (simp add: morning_def)
  from r(3) a0 have "length (alerts_for 3 (snd (check_and_send_reminders morning store1))) = 1"
    by (simp add: sn)
  moreover from r(2) have "get_reminder 3 (snd (check_and_send_reminders morning store1)) =
      Some \<lparr>rid = 3, r_user_id = 1, r_medication_id = 2, r_time = ''09:00'',
            r_is_active = True, last_sent = Some (clock_at 17 9 0 k)\<rparr>"
    by (simp add: sn ck)
  ultimately show ?thesis using a0 by blast
qed

lemma tick_change_rid: "tick_change d hm r r' \<Longrightarrow> rid r' = rid r"
  by (auto simp: tick_change_def)

lemma list_all2_replace:
  assumes rel: "list_all2 (tick_change d hm) rs0 rs" and dist: "distinct (map rid rs0)"
    and mem: "r \<in> set rs0" and act: "r_is_active r" and due: "is_due d hm r"
  shows "list_all2 (tick_change d hm) rs0
           (map (\<lambda>x. if rid x = rid r then r\<lparr>last_sent := Some t\<rparr> else x) rs)"
    and "list_ex (\<lambda>x. rid x = rid r) rs"
proof -
  have "list_all2 (\<lambda>a b. tick_change d hm a (if rid b = rid r then r\<lparr>last_sent := Some t\<rparr> else b))
          rs0 rs"
    using rel
  proof (rule list.rel_mono_strong)
    fix a b assume ab: "a \<in> set rs0" "b \<in> set rs" "tick_change d hm a b"
    show "tick_change d hm a (if rid b = rid r then r\<lparr>last_sent := Some t\<rparr> else b)"
    proof (cases "rid b = rid r")
      case True
      with ab(3) have "rid a = rid r" by (simp add: tick_change_rid)
      with dist mem ab(1) have "a = r" by (meson distinct_map inj_onD)
      with True act due show ?thesis by (auto simp: tick_change_def)
    next
      case False
      with ab(3) show ?thesis by simp
    qed
  qed
  then show "list_all2 (tick_change d hm) rs0
           (map (\<lambda>x. if rid x = rid r then r\<lparr>last_sent := Some t\<rparr> else x) rs)"
    by (simp add: list_all2_map2)
  from mem obtain i where i: "i < length rs0" "rs0 ! i = r" by (auto simp: in_set_conv_nth)
  with rel have "tick_change d hm r (rs ! i)" "i < length rs"
    by (auto simp: list_all2_conv_all_nth)
  then have "rs ! i \<in> set rs" "rid (rs ! i) = rid r" by (auto simp: tick_change_rid)
  then show "list_ex (\<lambda>x. rid x = rid r) rs" by (auto simp: list_ex_iff)
qed

lemma send_change:
  assumes rel: "list_all2 (tick_change d hm) rs0 (reminders s)" and dist: "distinct (map rid rs0)"
    and mem: "r \<in> set rs0" and act: "r_is_active r" and due: "is_due d hm r"
    and send: "send_reminder_alert e r s = (err, s')"
  shows "list_all2 (tick_change d hm) rs0 (reminders s')"
proof -
  note rep = list_all2_replace [OF rel dist mem act due]
  have saved: "list_all2 (tick_change d hm) rs0
      (reminders (save_reminder (r\<lparr>last_sent := Some t\<rparr>) s))" for t
    using rep(1) [of t] rep(2) by (simp add: save_reminder_def)
  from send show ?thesis
    using rel saved
    by (auto simp: send_reminder_alert_def now_def Let_def split: if_splits option.splits)
qed

lemma send_all_change:
  assumes "list_all2 (tick_change d hm) rs0 (reminders s)" and "distinct (map rid rs0)"
    and "\<forall>x\<in>set rs. x \<in> set rs0 \<and> r_is_active x"
    and "send_all e d hm rs s = (err, s')"
  shows "list_all2 (tick_change d hm) rs0 (reminders s')"
  using assms(1,3,4)
proof (induction rs arbitrary: s)
  case Nil
  then show ?case by simp
next
  case (Cons r rs)
  from Cons.prems(2) have rest: "\<forall>x\<in>set rs. x \<in> set rs0 \<and> r_is_active x"
    and mem: "r \<in> set rs0" and act: "r_is_active r" by simp_all
  show ?case
  proof (cases "is_due d hm r")
    case False
    with Cons.prems have "send_all e d hm rs s = (err, s')" by simp
    from Cons.IH [OF Cons.prems(1) rest this] show ?thesis .
  next
    case True
    obtain e1 s1 where s1: "send_reminder_alert e r s = (e1, s1)" by force
    note c1 = send_change [OF Cons.prems(1) assms(2) mem act True s1]
    show ?thesis
    proof (cases e1)
      case None
      with Cons.prems True s1 have "send_all e d hm rs s1 = (err, s')" by simp
      from Cons.IH [OF c1 rest this] show ?thesis .
    next
      case (Some x)
      with Cons.prems True s1 have "s' = s1" by simp
      with c1 show ?thesis by simp
    qed
  qed
qed

lemma tick_change_store:
  assumes dist: "distinct (map rid (reminders s))"
    and tick: "check_and_send_reminders e s = (err, s')"
  shows "list_all2 (tick_change (clock e (clock_reads s)) (strftime_HM (clock e (clock_reads s))))
           (reminders s) (reminders s')"
proof -
  let ?d = "clock e (clock_reads s)"
  let ?s1 = "s\<lparr>clock_reads := Suc (clock_reads s)\<rparr>"
  have refl: "list_all2 (tick_change ?d (strftime_HM ?d)) (reminders s) (reminders ?s1)"
    by (simp add: list_all2_refl tick_change_def)
  show ?thesis
  proof (cases "raises e ListReminders")
    case True
    with tick have "s' = ?s1" by (simp add: check_and_send_reminders_def now_def)
    with refl show ?thesis by simp
  next
    case False
    with tick have sa: "send_all e ?d (strftime_HM ?d) (filter r_is_active (reminders s)) ?s1 = (err, s')"
      by (simp add: check_and_send_reminders_def now_def)
    have "\<forall>x\<in>set (filter r_is_active (reminders s)). x \<in> set (reminders s) \<and> r_is_active x"
      by simp
    from send_all_change [OF refl dist this sa] show ?thesis .
  qed
qed

lemma tick_frame:
  assumes "check_and_send_reminders e s = (err, s')"
  shows "medications s' = medications s \<and> logs s' = logs s \<and> users s' = users s \<and>
         next_oid s' = next_oid s \<and> socketio s' = socketio s \<and>
         is_running s' = is_running s \<and> slept s' = slept s \<and> printed s' = printed s \<and>
         clock_reads s < clock_reads s'"
proof (cases "raises e ListReminders")
  case True
  with assms show ?thesis by (auto simp: check_and_send_reminders_def now_def)
next
  case False
  with assms have "send_all e (clock e (clock_reads s)) (strftime_HM (clock e (clock_reads s)))
      (filter r_is_active (reminders s)) (s\<lparr>clock_reads := Suc (clock_reads s)\<rparr>) = (err, s')"
    by (simp add: check_and_send_reminders_def now_def)
  from send_all_frame [OF this] show ?thesis by simp
qed

lemma list_all2_tick_change_ids:
  "list_all2 (tick_change d hm) rs rs' \<Longrightarrow> map rid rs' = map rid rs"
  by (induction rule: list_all2_induct) (auto simp: tick_change_rid)

lemma tick_morning_store1:
  "check_and_send_reminders morning store1 =
     (None,
      \<lparr>users = [\<lparr>uid = 1, username = ''ann''\<rparr>],
       medications =
        [\<lparr>mid = 2, m_user_id = 1, user_username = ''ann'', name = ''Aspirin'',
          dosage = Some ''81mg'', frequency = Some ''twice daily (1-0-1)'',
          instructions = None, duration = Some [], source = ''manual'', m_is_active = True\<rparr>],
       reminders =
        [\<lparr>rid = 3, r_user_id = 1, r_medication_id = 2, r_time = ''09:00'',
          r_is_active = True, last_sent = Some (clock_at 17 9 0 1)\<rparr>,
         \<lparr>rid = 4, r_user_id = 1, r_medication_id = 2, r_time = ''20:00'',
          r_is_active = True, last_sent = None\<rparr>],
       logs = [],
       emitted =
         [(''medication_reminder'',
           [(''type'', JStr ''medication_reminder''), (''reminder_id'', JOid 3),
            (''medication_id'', JOid 2), (''medication_name'', JStr ''Aspirin''),
            (''dosage'', JStr ''81mg''), (''instructions'', JStr []),
            (''time'', JStr ''09:00''), (''timestamp'', JStr ''2024-05-17T09:00:02'')],
           1)],
       next_oid = 5, clock_reads = 3, slept = 0, printed = [],
       is_running = True, socketio = True\<rparr>)"
  by (simp add: store1_eq scenario_defs tick_defs)

lemma store1_deleted_eq:
  "store1_deleted =
     \<lparr>users = [\<lparr>uid = 1, username = ''ann''\<rparr>],
      medications =
        [\<lparr>mid = 2, m_user_id = 1, user_username = ''ann'', name = ''Aspirin'',
          dosage = Some ''81mg'', frequency = Some ''twice daily (1-0-1)'',
          instructions = None, duration = Some [], source = ''manual'', m_is_active = False\<rparr>],
      reminders =
        [\<lparr>rid = 3, r_user_id = 1, r_medication_id = 2, r_time = ''09:00'',
          r_is_active = True, last_sent = None\<rparr>,
         \<lparr>rid = 4, r_user_id = 1, r_medication_id = 2, r_time = ''20:00'',
          r_is_active = True, last_sent = None\<rparr>],
      logs = [], emitted = [], next_oid = 5, clock_reads = 0, slept = 0, printed = [],
      is_running = True, socketio = True\<rparr>"
  by (simp add: store1_deleted_def store1_eq delete_medication_def owned_medication_def
      save_medication_def ann_def)

text \<open>
  Claim C3, at a concrete input. Ann deletes (deactivates) her Aspirin; at the next tick at
  09:00 the scheduler, which looks the medication up by id only, still emits the alert of
  the 09:00 reminder and sets its \<open>last_sent\<close>. (For a medication that is missing the
  reminder is skipped: \<open>tick_skips_missing_medication\<close> below.)
\<close>

theorem deactivated_medication_still_fires:
  "map m_is_active (medications store1_deleted) = [False] \<and>
   alerts_for 3 store1_deleted = [] \<and>
   fst (check_and_send_reminders morning store1_deleted) = None \<and>
   alerts_for 3 (snd (check_and_send_reminders morning store1_deleted)) =
     [(''medication_reminder'',
       [(''type'', JStr ''medication_reminder''), (''reminder_id'', JOid 3),
        (''medication_id'', JOid 2), (''medication_name'', JStr ''Aspirin''),
        (''dosage'', JStr ''81mg''), (''instructions'', JStr []),
        (''time'', JStr ''09:00''), (''timestamp'', JStr ''2024-05-17T09:00:02'')],
       1)] \<and>
   get_reminder 3 (snd (check_and_send_reminders morning store1_deleted)) =
     Some \<lparr>rid = 3, r_user_id = 1, r_medication_id = 2, r_time = ''09:00'',
           r_is_active = True, last_sent = Some (clock_at 17 9 0 1)\<rparr>"
  by (simp add: store1_deleted_eq scenario_defs tick_defs alerts_for_def is_alert_for_def
      get_reminder_def)

lemma send_all_untouched_missing:
  "\<forall>x\<in>set rs. is_due d hm x \<longrightarrow> rid x \<noteq> i \<or> find_medication (r_medication_id x) s = None \<Longrightarrow>
   send_all e d hm rs s = (err, s') \<Longrightarrow>
   get_reminder i s' = get_reminder i s \<and> alerts_for i s' = alerts_for i s"
proof (induction rs arbitrary: s)
  case Nil
  then show ?case by simp
next
  case (Cons r rs)
  show ?case
  proof (cases "is_due d hm r")
    case False
    with Cons.prems have "send_all e d hm rs s = (err, s')" by simp
    moreover from Cons.prems(1)
    have "\<forall>x\<in>set rs. is_due d hm x \<longrightarrow> rid x \<noteq> i \<or> find_medication (r_medication_id x) s = None"
      by simp
    ultimately show ?thesis by (rule Cons.IH [rotated])
  next
    case True
    obtain e1 s1 where s1: "send_reminder_alert e r s = (e1, s1)" by force
    have o1: "get_reminder i s1 = get_reminder i s \<and> alerts_for i s1 = alerts_for i s"
    proof (cases "rid r = i")
      case False
      then show ?thesis using send_other [OF s1] by simp
    next
      case eq: True
      with Cons.prems(1) True have "find_medication (r_medication_id r) s = None" by simp
      from send_missing [OF this, of e] s1 have "s1 = s" by simp
      then show ?thesis by simp
    qed
    have m1: "medications s1 = medications s" using send_frame [OF s1] by simp
    have rest: "\<forall>x\<in>set rs. is_due d hm x \<longrightarrow>
        rid x \<noteq> i \<or> find_medication (r_medication_id x) s1 = None"
      using Cons.prems(1) m1 by (simp add: find_medication_def)
    show ?thesis
    proof (cases e1)
      case None
      with Cons.prems True s1 have "send_all e d hm rs s1 = (err, s')" by simp
      from Cons.IH [OF rest this] o1 show ?thesis by simp
    next
      case (Some x)
      with Cons.prems True s1 have "s' = s1" by simp
      with o1 show ?thesis by simp
    qed
  qed
qed

lemma tick_skips_missing_medication:
  assumes dist: "distinct (map rid (reminders s))"
    and mem: "r \<in> set (reminders s)"
    and missing: "find_medication (r_medication_id r) s = None"
    and tick: "check_and_send_reminders e s = (err, s')"
  shows "get_reminder (rid r) s' = Some r \<and> alerts_for (rid r) s' = alerts_for (rid r) s"
proof -
  let ?s1 = "s\<lparr>clock_reads := Suc (clock_reads s)\<rparr>"
  let ?rs = "filter r_is_active (reminders s)"
  let ?d = "clock e (clock_reads s)"
  have g: "get_reminder (rid r) s = Some r" using dist mem by (rule get_reminder_mem)
  show ?thesis
  proof (cases "raises e ListReminders")
    case True
    with tick have "s' = ?s1" by (simp add: check_and_send_reminders_def now_def)
    with g show ?thesis by simp
  next
    case False
    with tick have sa: "send_all e ?d (strftime_HM ?d) ?rs ?s1 = (err, s')"
      by (simp add: check_and_send_reminders_def now_def)
    have "\<forall>x\<in>set ?rs. is_due ?d (strftime_HM ?d) x \<longrightarrow>
        rid x \<noteq> rid r \<or> find_medication (r_medication_id x) ?s1 = None"
    proof (intro ballI impI)
      fix x assume x: "x \<in> set ?rs" "is_due ?d (strftime_HM ?d) x"
      show "rid x \<noteq> rid r \<or> find_medication (r_medication_id x) ?s1 = None"
      proof (cases "rid x = rid r")
        case True
        from x(1) have "x \<in> set (reminders s)" by simp
        with dist mem True have "x = r" by (meson distinct_map inj_onD)
        with missing show ?thesis by simp
      next
        case False
        then show ?thesis by simp
      qed
    qed
    from send_all_untouched_missing [OF this sa] g show ?thesis by simp
  qed
qed

lemma get_reminder_in_set: "get_reminder i s = Some r \<Longrightarrow> r \<in> set (reminders s) \<and> rid r = i"
  by (auto simp: get_reminder_def find_Some_iff in_set_conv_nth)

text \<open>
  Claim C2. For a stored reminder \<open>r\<close>: a tick that finds \<open>last_sent\<close> on the tick's
  date publishes no alert for \<open>r\<close> and leaves it as it is, whatever else happens in the
  tick; a tick at the reminder's time that finds \<open>last_sent\<close> on another date (the day
  before, for one) fires it again, when its medication is found, a socket is attached and
  nothing raises; and after a tick that fired \<open>r\<close> (the clock staying on the tick's date),
  any further tick on that date publishes no alert for \<open>r\<close>.
\<close>

theorem one_alert_per_calendar_date:
  assumes "distinct (map rid (reminders s))" and "r \<in> set (reminders s)"
  shows
    "(\<forall>l. last_sent r = Some l \<and> date_of l = date_of (clock e (clock_reads s)) \<longrightarrow>
        alerts_for (rid r) (snd (check_and_send_reminders e s)) = alerts_for (rid r) s \<and>
        get_reminder (rid r) (snd (check_and_send_reminders e s)) = Some r) \<and>
     (\<forall>l. last_sent r = Some l \<and> date_of l \<noteq> date_of (clock e (clock_reads s)) \<and>
          r_is_active r \<and> r_time r = strftime_HM (clock e (clock_reads s)) \<and>
          find_medication (r_medication_id r) s = Some m \<and> socketio s \<and>
          (\<forall>op. \<not> raises e op) \<longrightarrow>
        (\<exists>s' k. check_and_send_reminders e s = (None, s') \<and>
           get_reminder (rid r) s' = Some (r\<lparr>last_sent := Some (clock e k)\<rparr>) \<and>
           alerts_for (rid r) s' = alerts_for (rid r) s @
             [(''medication_reminder'',
               alert_payload (r\<lparr>last_sent := Some (clock e k)\<rparr>) m (clock e (Suc k)),
               r_user_id r)])) \<and>
     (r_is_active r \<and> is_due (clock e (clock_reads s)) (strftime_HM (clock e (clock_reads s))) r \<and>
      find_medication (r_medication_id r) s = Some m \<and> socketio s \<and> (\<forall>op. \<not> raises e op) \<and>
      (\<forall>k. clock_reads s < k \<and> k \<le> clock_reads s + 2 * length (reminders s) \<longrightarrow>
             date_of (clock e k) = date_of (clock e (clock_reads s))) \<longrightarrow>
        (\<forall>e2. date_of (clock e2 (clock_reads (snd (check_and_send_reminders e s)))) =
                date_of (clock e (clock_reads s)) \<longrightarrow>
           alerts_for (rid r)
             (snd (check_and_send_reminders e2 (snd (check_and_send_reminders e s)))) =
           alerts_for (rid r) (snd (check_and_send_reminders e s))))"
proof (intro conjI allI impI)
  fix l assume a: "last_sent r = Some l \<and> date_of l = date_of (clock e (clock_reads s))"
  then have nd: "\<not> r_is_active r \<or>
      \<not> is_due (clock e (clock_reads s)) (strftime_HM (clock e (clock_reads s))) r"
    by (simp add: is_due_def)
  obtain err s' where t: "check_and_send_reminders e s = (err, s')" by force
  from tick_skips [OF assms nd t] t
  show "alerts_for (rid r) (snd (check_and_send_reminders e s)) = alerts_for (rid r) s"
    and "get_reminder (rid r) (snd (check_and_send_reminders e s)) = Some r" by simp_all
next
  fix l assume b: "last_sent r = Some l \<and> date_of l \<noteq> date_of (clock e (clock_reads s)) \<and>
          r_is_active r \<and> r_time r = strftime_HM (clock e (clock_reads s)) \<and>
          find_medication (r_medication_id r) s = Some m \<and> socketio s \<and>
          (\<forall>op. \<not> raises e op)"
  then have due: "is_due (clock e (clock_reads s)) (strftime_HM (clock e (clock_reads s))) r"
    by (simp add: is_due_def)
  from b have act: "r_is_active r" and med: "find_medication (r_medication_id r) s = Some m"
    and sock: "socketio s" and nof: "\<forall>op. \<not> raises e op" by simp_all
  from tick_fires [OF assms act due med sock nof]
  show "\<exists>s' k. check_and_send_reminders e s = (None, s') \<and>
           get_reminder (rid r) s' = Some (r\<lparr>last_sent := Some (clock e k)\<rparr>) \<and>
           alerts_for (rid r) s' = alerts_for (rid r) s @
             [(''medication_reminder'',
               alert_payload (r\<lparr>last_sent := Some (clock e k)\<rparr>) m (clock e (Suc k)),
               r_user_id r)]" by blast
next
  fix e2 :: env
  assume c: "r_is_active r \<and> is_due (clock e (clock_reads s)) (strftime_HM (clock e (clock_reads s))) r \<and>
      find_medication (r_medication_id r) s = Some m \<and> socketio s \<and> (\<forall>op. \<not> raises e op) \<and>
      (\<forall>k. clock_reads s < k \<and> k \<le> clock_reads s + 2 * length (reminders s) \<longrightarrow>
             date_of (clock e k) = date_of (clock e (clock_reads s)))"
    and d2: "date_of (clock e2 (clock_reads (snd (check_and_send_reminders e s)))) =
                date_of (clock e (clock_reads s))"
  from c have act: "r_is_active r"
    and due: "is_due (clock e (clock_reads s)) (strftime_HM (clock e (clock_reads s))) r"
    and med: "find_medication (r_medication_id r) s = Some m"
    and sock: "socketio s" and nof: "\<forall>op. \<not> raises e op" by simp_all
  from tick_fires [OF assms act due med sock nof] obtain s' k where
    r: "check_and_send_reminders e s = (None, s')"
      "clock_reads s < k" "k \<le> clock_reads s + 2 * length (reminders s)"
      "get_reminder (rid r) s' = Some (r\<lparr>last_sent := Some (clock e k)\<rparr>)" by blast
  let ?r' = "r\<lparr>last_sent := Some (clock e k)\<rparr>"
  from c r(2,3) have dk: "date_of (clock e k) = date_of (clock e (clock_reads s))" by blast
  from tick_change_store [OF assms(1) r(1)] have "map rid (reminders s') = map rid (reminders s)"
    by (rule list_all2_tick_change_ids)
  with assms(1) have dist': "distinct (map rid (reminders s'))" by simp
  from get_reminder_in_set [OF r(4)] have mem': "?r' \<in> set (reminders s')" by simp
  have nd: "\<not> r_is_active ?r' \<or>
      \<not> is_due (clock e2 (clock_reads s')) (strftime_HM (clock e2 (clock_reads s'))) ?r'"
    using dk d2 r(1) by (simp add: is_due_def)
  obtain err s'' where t2: "check_and_send_reminders e2 s' = (err, s'')" by force
  from tick_skips [OF dist' mem' nd t2] have "alerts_for (rid r) s'' = alerts_for (rid r) s'"
    by simp
  with t2 r(1)
  show "alerts_for (rid r)
             (snd (check_and_send_reminders e2 (snd (check_and_send_reminders e s)))) =
           alerts_for (rid r) (snd (check_and_send_reminders e s))" by simp
qed


lemma store1_sent_eq:
  "store1_sent =
      \<lparr>users = [\<lparr>uid = 1, username = ''ann''\<rparr>],
       medications =
        [\<lparr>mid = 2, m_user_id = 1, user_username = ''ann'', name = ''Aspirin'',
          dosage = Some ''81mg'', frequency = Some ''twice daily (1-0-1)'',
          instructions = None, duration = Some [], source = ''manual'', m_is_active = True\<rparr>],
       reminders =
        [\<lparr>rid = 3, r_user_id = 1, r_medication_id = 2, r_time = ''09:00'',
          r_is_active = True, last_sent = Some (clock_at 17 9 0 1)\<rparr>,
         \<lparr>rid = 4, r_user_id = 1, r_medication_id = 2, r_time = ''20:00'',
          r_is_active = True, last_sent = None\<rparr>],
       logs = [],
       emitted =
         [(''medication_reminder'',
           [(''type'', JStr ''medication_reminder''), (''reminder_id'', JOid 3),
            (''medication_id'', JOid 2), (''medication_name'', JStr ''Aspirin''),
            (''dosage'', JStr ''81mg''), (''instructions'', JStr []),
            (''time'', JStr ''09:00''), (''timestamp'', JStr ''2024-05-17T09:00:02'')],
           1)],
       next_oid = 5, clock_reads = 3, slept = 0, printed = [],
       is_running = True, socketio = True\<rparr>"
  by (simp add: store1_sent_def tick_morning_store1)

theorem one_alert_per_calendar_date_witness:
  "length (alerts_for 3 store1_sent) = 1 \<and>
   alerts_for 3 (snd (check_and_send_reminders morning store1_sent)) = alerts_for 3 store1_sent \<and>
   (\<exists>s'. check_and_send_reminders next_morning store1_sent = (None, s') \<and>
      length (alerts_for 3 s') = 2) \<and>
   alerts_for 3 (snd (check_and_send_reminders morning
       (snd (check_and_send_reminders morning store1)))) =
     alerts_for 3 (snd (check_and_send_reminders morning store1))"
proof -
  let ?rnew = "\<lparr>rid = 3, r_user_id = 1, r_medication_id = 2, r_time = ''09:00'',
             r_is_active = True, last_sent = None\<rparr>"
  let ?rsent = "\<lparr>rid = 3, r_user_id = 1, r_medication_id = 2, r_time = ''09:00'',
             r_is_active = True, last_sent = Some (clock_at 17 9 0 1)\<rparr>"
  let ?m = "\<lparr>mid = 2, m_user_id = 1, user_username = ''ann'', name = ''Aspirin'',
          dosage = Some ''81mg'', frequency = Some ''twice daily (1-0-1)'',
          instructions = None, duration = Some [], source = ''manual'', m_is_active = True\<rparr>"
  have h1: "distinct (map rid (reminders store1_sent))" by (simp add: store1_sent_eq)
  have h2: "?rsent \<in> set (reminders store1_sent)" by (simp add: store1_sent_eq)
  have g1: "distinct (map rid (reminders store1))" by (simp add: store1_eq)
  have g2: "?rnew \<in> set (reminders store1)" by (simp add: store1_eq)
  have len1: "length (alerts_for 3 store1_sent) = 1"
    by (simp add: store1_sent_eq alerts_for_def is_alert_for_def)
  have ha: "last_sent ?rsent = Some (clock_at 17 9 0 1) \<and>
      date_of (clock_at 17 9 0 1) = date_of (clock morning (clock_reads store1_sent))"
    by (simp add: store1_sent_eq scenario_defs date_of_def)
  have hb: "last_sent ?rsent = Some (clock_at 17 9 0 1) \<and>
      date_of (clock_at 17 9 0 1) \<noteq> date_of (clock next_morning (clock_reads store1_sent)) \<and>
      r_is_active ?rsent \<and> r_time ?rsent = strftime_HM (clock next_morning (clock_reads store1_sent)) \<and>
      find_medication (r_medication_id ?rsent) store1_sent = Some ?m \<and> socketio store1_sent \<and>
      (\<forall>op. \<not> raises next_morning op)"
    by (simp add: store1_sent_eq scenario_defs date_of_def strftime_HM_def pad2_def digit_def
        find_medication_def)
  have hc: "r_is_active ?rnew \<and>
      is_due (clock morning (clock_reads store1)) (strftime_HM (clock morning (clock_reads store1))) ?rnew \<and>
      find_medication (r_medication_id ?rnew) store1 = Some ?m \<and> socketio store1 \<and>
      (\<forall>op. \<not> raises morning op) \<and>
      (\<forall>k. clock_reads store1 < k \<and> k \<le> clock_reads store1 + 2 * length (reminders store1) \<longrightarrow>
             date_of (clock morning k) = date_of (clock morning (clock_reads store1)))"
    by (simp add: store1_eq scenario_defs date_of_def strftime_HM_def pad2_def digit_def
        find_medication_def is_due_def)
  have hd: "date_of (clock morning (clock_reads (snd (check_and_send_reminders morning store1)))) =
      date_of (clock morning (clock_reads store1))"
    by (simp add: scenario_defs date_of_def)
  note A = one_alert_per_calendar_date [OF h1 h2, where e = morning and m = ?m]
  note B = one_alert_per_calendar_date [OF h1 h2, where e = next_morning and m = ?m]
  note C = one_alert_per_calendar_date [OF g1 g2, where e = morning and m = ?m]
  from A ha have a: "alerts_for (rid ?rsent) (snd (check_and_send_reminders morning store1_sent)) =
      alerts_for (rid ?rsent) store1_sent" by blast
  from B hb obtain s' k where b: "check_and_send_reminders next_morning store1_sent = (None, s')"
    "alerts_for (rid ?rsent) s' = alerts_for (rid ?rsent) store1_sent @
             [(''medication_reminder'',
               alert_payload (?rsent\<lparr>last_sent := Some (clock next_morning k)\<rparr>) ?m
                 (clock next_morning (Suc k)), r_user_id ?rsent)]" by blast
  from b(2) len1 have b2: "length (alerts_for 3 s') = 2" by simp
  from C hc hd have c: "alerts_for (rid ?rnew)
             (snd (check_and_send_reminders morning (snd (check_and_send_reminders morning store1)))) =
           alerts_for (rid ?rnew) (snd (check_and_send_reminders morning store1))" by blast
  from a have a': "alerts_for 3 (snd (check_and_send_reminders morning store1_sent)) =
      alerts_for 3 store1_sent" by simp
  from b(1) b2 have b': "\<exists>s'. check_and_send_reminders next_morning store1_sent = (None, s') \<and>
      length (alerts_for 3 s') = 2" by blast
  from c have c': "alerts_for 3
             (snd (check_and_send_reminders morning (snd (check_and_send_reminders morning store1)))) =
           alerts_for 3 (snd (check_and_send_reminders morning store1))" by simp
  from len1 a' b' c' show ?thesis by blast
qed

lemma send_all_append:
  "send_all e d hm (pre @ xs) s =
     (case send_all e d hm pre s of
        (Some err, s') \<Rightarrow> (Some err, s')
      | (None, s') \<Rightarrow> send_all e d hm xs s')"
  by (induction pre arbitrary: s) (auto split: prod.splits option.splits)

lemma loop_body_frame:
  "is_running (loop_body e s) = is_running s \<and> slept (loop_body e s) = slept s + 60 \<and>
   clock_reads s < clock_reads (loop_body e s) \<and>
   printed (loop_body e s) =
     printed s @ (case fst (check_and_send_reminders e s) of None \<Rightarrow> [] | Some err \<Rightarrow> [err])"
proof -
  obtain err s' where t: "check_and_send_reminders e s = (err, s')" by force
  from tick_frame [OF t] t show ?thesis
    by (cases err) (simp_all add: loop_body_def)
qed

lemma reminder_loop_runs:
  "is_running s \<Longrightarrow>
   is_running (reminder_loop es s) \<and> slept (reminder_loop es s) = slept s + 60 * length es \<and>
   clock_reads s + length es \<le> clock_reads (reminder_loop es s)"
proof (induction es arbitrary: s)
  case Nil
  then show ?case by simp
next
  case (Cons e es)
  from loop_body_frame [of e s] Cons.prems have r: "is_running (loop_body e s)"
    and sl: "slept (loop_body e s) = slept s + 60"
    and ck: "clock_reads s < clock_reads (loop_body e s)" by simp_all
  from Cons.IH [OF r] sl ck Cons.prems show ?case by simp
qed

text \<open>
  Claim C6, as amended. An exception raised while a due reminder is processed ends the tick
  there: the tick returns that exception and the state reached at that point, whatever
  active reminders come after it (\<open>rest\<close>), so these are not evaluated in this tick. The
  loop catches the exception, prints it, sleeps the 60 seconds and goes on: while
  \<open>is_running\<close> holds, every iteration is run, whatever raises in them.
\<close>

theorem failure_ends_tick_not_loop:
  "(filter r_is_active (reminders s) = pre @ r # rest \<and> \<not> raises e ListReminders \<and>
    send_all e (clock e (clock_reads s)) (strftime_HM (clock e (clock_reads s))) pre
      (s\<lparr>clock_reads := Suc (clock_reads s)\<rparr>) = (None, s_pre) \<and>
    is_due (clock e (clock_reads s)) (strftime_HM (clock e (clock_reads s))) r \<and>
    send_reminder_alert e r s_pre = (Some err, s_fail) \<longrightarrow>
      check_and_send_reminders e s = (Some err, s_fail)) \<and>
   (fst (check_and_send_reminders e s) = Some err \<longrightarrow>
      printed (loop_body e s) = printed s @ [err] \<and> slept (loop_body e s) = slept s + 60 \<and>
      is_running (loop_body e s) = is_running s) \<and>
   (is_running s \<longrightarrow>
      is_running (reminder_loop es s) \<and>
      slept (reminder_loop es s) = slept s + 60 * length es \<and>
      clock_reads s + length es \<le> clock_reads (reminder_loop es s))"
proof (intro conjI impI)
  assume a: "filter r_is_active (reminders s) = pre @ r # rest \<and> \<not> raises e ListReminders \<and>
    send_all e (clock e (clock_reads s)) (strftime_HM (clock e (clock_reads s))) pre
      (s\<lparr>clock_reads := Suc (clock_reads s)\<rparr>) = (None, s_pre) \<and>
    is_due (clock e (clock_reads s)) (strftime_HM (clock e (clock_reads s))) r \<and>
    send_reminder_alert e r s_pre = (Some err, s_fail)"
  then show "check_and_send_reminders e s = (Some err, s_fail)"
    by (simp add: check_and_send_reminders_def now_def send_all_append)
next
  assume "fst (check_and_send_reminders e s) = Some err"
  with loop_body_frame [of e s]
  show "printed (loop_body e s) = printed s @ [err]" and "slept (loop_body e s) = slept s + 60"
    and "is_running (loop_body e s) = is_running s" by simp_all
next
  assume r: "is_running s"
  from reminder_loop_runs [OF r, of es]
  show "is_running (reminder_loop es s)"
    and "slept (reminder_loop es s) = slept s + 60 * length es"
    and "clock_reads s + length es \<le> clock_reads (reminder_loop es s)" by simp_all
qed

lemma tick_fails_store2:
  "check_and_send_reminders morning_save_fails store2 =
     (Some (StoreError (SaveReminder 3)), store2\<lparr>clock_reads := 2\<rparr>)"
  by (simp add: store2_eq scenario_defs tick_defs)

theorem failure_ends_tick_not_loop_witness:
  "check_and_send_reminders morning_save_fails store2 =
     (Some (StoreError (SaveReminder 3)), store2\<lparr>clock_reads := 2\<rparr>) \<and>
   printed (loop_body morning_save_fails store2) = [StoreError (SaveReminder 3)] \<and>
   is_running (reminder_loop [morning_save_fails, morning] store2) \<and>
   slept (reminder_loop [morning_save_fails, morning] store2) = 120"
proof -
  let ?ra = "\<lparr>rid = 3, r_user_id = 1, r_medication_id = 2, r_time = ''09:00'',
             r_is_active = True, last_sent = None\<rparr>"
  let ?rb = "\<lparr>rid = 4, r_user_id = 1, r_medication_id = 2, r_time = ''20:00'',
             r_is_active = True, last_sent = None\<rparr>"
  let ?rc = "\<lparr>rid = 6, r_user_id = 1, r_medication_id = 5, r_time = ''09:00'',
             r_is_active = True, last_sent = None\<rparr>"
  let ?e = morning_save_fails
  let ?err = "StoreError (SaveReminder 3)"
  have h: "filter r_is_active (reminders store2) = [] @ ?ra # [?rb, ?rc] \<and>
    \<not> raises ?e ListReminders \<and>
    send_all ?e (clock ?e (clock_reads store2)) (strftime_HM (clock ?e (clock_reads store2))) []
      (store2\<lparr>clock_reads := Suc (clock_reads store2)\<rparr>) = (None, store2\<lparr>clock_reads := 1\<rparr>) \<and>
    is_due (clock ?e (clock_reads store2)) (strftime_HM (clock ?e (clock_reads store2))) ?ra \<and>
    send_reminder_alert ?e ?ra (store2\<lparr>clock_reads := 1\<rparr>) = (Some ?err, store2\<lparr>clock_reads := 2\<rparr>)"
    by (simp add: store2_eq scenario_defs tick_defs)
  have p0: "printed store2 = []" and s0: "slept store2 = 0" and r0: "is_running store2"
    by (simp_all add: store2_eq)
  note T = failure_ends_tick_not_loop [where s = store2 and e = ?e and err = ?err
      and pre = "[]" and r = ?ra and rest = "[?rb, ?rc]" and s_pre = "store2\<lparr>clock_reads := 1\<rparr>"
      and s_fail = "store2\<lparr>clock_reads := 2\<rparr>" and es = "[morning_save_fails, morning]"]
  from T h have t1: "check_and_send_reminders ?e store2 = (Some ?err, store2\<lparr>clock_reads := 2\<rparr>)"
    by blast
  then have "fst (check_and_send_reminders ?e store2) = Some ?err" by simp
  with T have t2: "printed (loop_body ?e store2) = printed store2 @ [?err]" by blast
  from T r0 have t3: "is_running (reminder_loop [morning_save_fails, morning] store2)"
    and t4: "slept (reminder_loop [morning_save_fails, morning] store2) =
        slept store2 + 60 * length [morning_save_fails, morning]" by blast+
  from t1 t2 t3 t4 p0 s0 show ?thesis by simp
qed

lemma tick_morning_store2_alerts:
  "alerts_for 6 (snd (check_and_send_reminders morning store2)) =
     [(''medication_reminder'',
       [(''type'', JStr ''medication_reminder''), (''reminder_id'', JOid 6),
        (''medication_id'', JOid 5), (''medication_name'', JStr ''Vitamin D''),
        (''dosage'', JStr ''1 tablet''), (''instructions'', JStr ''with food''),
        (''time'', JStr ''09:00''), (''timestamp'', JStr ''2024-05-17T09:00:04'')],
       1)]"
  by (simp add: store2_eq scenario_defs tick_defs alerts_for_def is_alert_for_def)

text \<open>
  Claim C6 as stated fails. With the Aspirin and the vitamin both due at 09:00, the save of
  the Aspirin reminder (id 3) raises; the vitamin reminder (id 6) is due, none of its own
  calls would raise, and the same tick without the failure fires it, yet this tick publishes
  no alert for it and leaves it unsent.
\<close>

theorem failure_skips_remaining_reminders:
  "fst (check_and_send_reminders morning_save_fails store2) = Some (StoreError (SaveReminder 3)) \<and>
   get_reminder 6 store2 =
     Some \<lparr>rid = 6, r_user_id = 1, r_medication_id = 5, r_time = ''09:00'',
           r_is_active = True, last_sent = None\<rparr> \<and>
   is_due (clock morning_save_fails 0) (strftime_HM (clock morning_save_fails 0))
     \<lparr>rid = 6, r_user_id = 1, r_medication_id = 5, r_time = ''09:00'',
      r_is_active = True, last_sent = None\<rparr> \<and>
   \<not> raises morning_save_fails (FindMedication 5) \<and>
   \<not> raises morning_save_fails (SaveReminder 6) \<and>
   \<not> raises morning_save_fails (Emit 6) \<and>
   alerts_for 6 (snd (check_and_send_reminders morning_save_fails store2)) = [] \<and>
   get_reminder 6 (snd (check_and_send_reminders morning_save_fails store2)) =
     Some \<lparr>rid = 6, r_user_id = 1, r_medication_id = 5, r_time = ''09:00'',
           r_is_active = True, last_sent = None\<rparr> \<and>
   length (alerts_for 6 (snd (check_and_send_reminders morning store2))) = 1"
  by (simp add: tick_fails_store2 tick_morning_store2_alerts)
    (simp add: store2_eq scenario_defs get_reminder_def alerts_for_def is_due_def
      strftime_HM_def pad2_def digit_def)

lemma alert_payload_shape:
  "alert_shape e (r_time r) (''medication_reminder'', alert_payload r m (clock e k), u)"
  by (auto simp: alert_shape_def alert_payload_def alert_keys_def)

lemma send_emits:
  assumes "send_reminder_alert e r s = (err, s')"
  shows "\<exists>new. emitted s' = emitted s @ new \<and> list_all (alert_shape e (r_time r)) new"
proof -
  have sh: "alert_shape e (r_time r)
      (''medication_reminder'', alert_payload (r\<lparr>last_sent := t\<rparr>) m (clock e k), u)" for t m k u
    using alert_payload_shape [of e "r\<lparr>last_sent := t\<rparr>" m k u] by simp
  have "emitted s' = emitted s \<or>
      (\<exists>m. emitted s' = emitted s @
         [(''medication_reminder'',
           alert_payload (r\<lparr>last_sent := Some (clock e (clock_reads s))\<rparr>) m
             (clock e (Suc (clock_reads s))), r_user_id r)])"
    using assms
    by (auto simp: send_reminder_alert_def now_def Let_def split: if_splits option.splits)
  then have "emitted s' = emitted s \<or>
      (\<exists>t m k u. emitted s' = emitted s @
         [(''medication_reminder'', alert_payload (r\<lparr>last_sent := t\<rparr>) m (clock e k), u)])"
    by blast
  then show ?thesis
  proof
    assume "emitted s' = emitted s"
    then have "emitted s' = emitted s @ [] \<and> list_all (alert_shape e (r_time r)) []" by simp
    then show ?thesis by blast
  next
    assume "\<exists>t m k u. emitted s' = emitted s @
         [(''medication_reminder'', alert_payload (r\<lparr>last_sent := t\<rparr>) m (clock e k), u)]"
    then obtain t m k u where "emitted s' = emitted s @
         [(''medication_reminder'', alert_payload (r\<lparr>last_sent := t\<rparr>) m (clock e k), u)]"
      by blast
    with sh [of t m k u] have "emitted s' = emitted s @
         [(''medication_reminder'', alert_payload (r\<lparr>last_sent := t\<rparr>) m (clock e k), u)] \<and>
       list_all (alert_shape e (r_time r))
         [(''medication_reminder'', alert_payload (r\<lparr>last_sent := t\<rparr>) m (clock e k), u)]"
      by simp
    then show ?thesis by blast
  qed
qed

lemma send_all_emits:
  "send_all e d hm rs s = (err, s') \<Longrightarrow>
   \<exists>new. emitted s' = emitted s @ new \<and> list_all (alert_shape e hm) new"
proof (induction rs arbitrary: s)
  case Nil
  then have "emitted s' = emitted s @ [] \<and> list_all (alert_shape e hm) []" by simp
  then show ?case by blast
next
  case (Cons r rs)
  show ?case
  proof (cases "is_due d hm r")
    case False
    with Cons.prems have "send_all e d hm rs s = (err, s')" by simp
    from Cons.IH [OF this] show ?thesis .
  next
    case True
    then have hm: "r_time r = hm" by (simp add: is_due_def)
    obtain e1 s1 where s1: "send_reminder_alert e r s = (e1, s1)" by force
    from send_emits [OF s1] hm obtain n1 where
      n1: "emitted s1 = emitted s @ n1" "list_all (alert_shape e hm) n1" by blast
    show ?thesis
    proof (cases e1)
      case None
      with Cons.prems True s1 have "send_all e d hm rs s1 = (err, s')" by simp
      from Cons.IH [OF this] obtain n2 where
        "emitted s' = emitted s1 @ n2" "list_all (alert_shape e hm) n2" by blast
      with n1 have "emitted s' = emitted s @ (n1 @ n2) \<and> list_all (alert_shape e hm) (n1 @ n2)"
        by simp
      then show ?thesis by blast
    next
      case (Some x)
      with Cons.prems True s1 have "s' = s1" by simp
      with n1 show ?thesis by blast
    qed
  qed
qed

text \<open>
  Claim C7, as amended. Whatever a tick emits is a reminder alert of exactly eight fields, in
  this order: \<open>type\<close> (always the string medication_reminder), \<open>reminder_id\<close>,
  \<open>medication_id\<close>, \<open>medication_name\<close>, \<open>dosage\<close>, \<open>instructions\<close>, \<open>time\<close> (the
  tick's \<open>HH:MM\<close>) and \<open>timestamp\<close> (the ISO form of a clock reading); the ids are
  rendered ObjectIds, the other values strings.
\<close>

theorem alert_payload_fields:
  "\<exists>new. emitted (snd (check_and_send_reminders e s)) = emitted s @ new \<and>
         list_all (alert_shape e (strftime_HM (clock e (clock_reads s)))) new"
proof (cases "raises e ListReminders")
  case True
  then have "emitted (snd (check_and_send_reminders e s)) = emitted s @ [] \<and>
      list_all (alert_shape e (strftime_HM (clock e (clock_reads s)))) []"
    by (simp add: check_and_send_reminders_def now_def)
  then show ?thesis by blast
next
  case False
  obtain err s' where sa: "send_all e (clock e (clock_reads s)) (strftime_HM (clock e (clock_reads s)))
      (filter r_is_active (reminders s)) (s\<lparr>clock_reads := Suc (clock_reads s)\<rparr>) = (err, s')"
    by force
  with False have "snd (check_and_send_reminders e s) = s'"
    by (simp add: check_and_send_reminders_def now_def)
  with send_all_emits [OF sa] show ?thesis by simp
qed

text \<open>
  Claim C7 as stated fails. The alert emitted at 09:00 for the Aspirin reminder has eight
  keys; \<open>type\<close> is one of them and is none of the seven fields of the claim, under the
  code's names or the specification's.
\<close>

theorem alert_payload_has_type_field:
  "map (map fst \<circ> fst \<circ> snd) (emitted (snd (check_and_send_reminders morning store1))) =
     [alert_keys] \<and>
   ''type'' \<in> set alert_keys \<and> ''type'' \<notin> set claimed_fields \<and>
   ''type'' \<notin> set claimed_fields_spec \<and>
   set alert_keys \<noteq> set claimed_fields \<and> set alert_keys \<noteq> set claimed_fields_spec \<and>
   length alert_keys = 8 \<and> length claimed_fields = 7"
proof -
  have a: "map (map fst \<circ> fst \<circ> snd) (emitted (snd (check_and_send_reminders morning store1))) =
     [alert_keys]"
    by (simp add: tick_morning_store1 alert_keys_def)
  have b: "''type'' \<in> set alert_keys" by (simp add: alert_keys_def)
  have c: "''type'' \<notin> set claimed_fields" by (simp add: claimed_fields_def)
  have d: "''type'' \<notin> set claimed_fields_spec" by (simp add: claimed_fields_spec_def)
  from b c have e: "set alert_keys \<noteq> set claimed_fields" by blast
  from b d have f: "set alert_keys \<noteq> set claimed_fields_spec" by blast
  have g: "length alert_keys = 8" "length claimed_fields = 7"
    by (simp_all add: alert_keys_def claimed_fields_def)
  from a b c d e f g show ?thesis by blast
qed

section \<open>What the handlers leave alone\<close>

lemma ensure_reminder_frame [simp]:
  "medications (ensure_reminder u m t s) = medications s"
  "logs (ensure_reminder u m t s) = logs s"
  "users (ensure_reminder u m t s) = users s"
  "emitted (ensure_reminder u m t s) = emitted s"
  by (simp_all add: ensure_reminder_def split: option.split)

lemma ensure_reminders_frame [simp]:
  "medications (ensure_reminders u m ts s) = medications s"
  "logs (ensure_reminders u m ts s) = logs s"
  "users (ensure_reminders u m ts s) = users s"
  "emitted (ensure_reminders u m ts s) = emitted s"
  unfolding ensure_reminders_def by (induction ts arbitrary: s) simp_all

lemma backfill_medications_fold_frame:
  "medications (fold (\<lambda>m. ensure_reminders u (mid m) (parse_frequency_to_times (frequency m))) ms s)
     = medications s \<and>
   logs (fold (\<lambda>m. ensure_reminders u (mid m) (parse_frequency_to_times (frequency m))) ms s)
     = logs s \<and>
   users (fold (\<lambda>m. ensure_reminders u (mid m) (parse_frequency_to_times (frequency m))) ms s)
     = users s"
  by (induction ms arbitrary: s) simp_all

lemma backfill_medications_frame [simp]:
  "medications (backfill_medications u s) = medications s"
  "logs (backfill_medications u s) = logs s"
  "users (backfill_medications u s) = users s"
  by (simp_all add: backfill_medications_def backfill_medications_fold_frame)

lemma fold_backfill_frame:
  "medications (fold backfill_medications us s) = medications s \<and>
   logs (fold backfill_medications us s) = logs s \<and>
   users (fold backfill_medications us s) = users s"
  by (induction us arbitrary: s) simp_all

lemma backfill_frame [simp]:
  "medications (backfill_reminders_for_all_users s) = medications s"
  "logs (backfill_reminders_for_all_users s) = logs s"
  "users (backfill_reminders_for_all_users s) = users s"
  by (simp_all add: backfill_reminders_for_all_users_def fold_backfill_frame)

lemma post_medication_logs [simp]: "logs (snd (post_medication cu data s)) = logs s"
  by (simp add: post_medication_def Let_def split: option.split)

lemma add_extracted_logs: "logs (snd (snd (add_extracted cu mds n s))) = logs s"
  by (induction mds arbitrary: n s) (simp_all add: Let_def split: option.split)

lemma upload_state:
  "snd (upload_prescription cu mds s) = snd (snd (add_extracted cu mds 0 s))"
  by (simp add: upload_prescription_def split: prod.split option.split)

lemma upload_prescription_logs [simp]: "logs (snd (upload_prescription cu mds s)) = logs s"
  by (simp add: upload_state add_extracted_logs)

lemma delete_medication_logs [simp]: "logs (snd (delete_medication cu i s)) = logs s"
  by (simp add: delete_medication_def save_medication_def split: option.split)

lemma take_medication_logs:
  "logs (snd (take_medication cu i s)) =
     logs s @ (case owned_medication cu i s of
                 None \<Rightarrow> []
               | Some med \<Rightarrow> [\<lparr>lid = next_oid s, l_user_id = uid cu,
                                l_medication_id = mid med, l_notes = []\<rparr>])"
  by (simp add: take_medication_def split: option.split)

text \<open>
  Claim C8. A tick leaves the medications, the medication logs and the users as they are; the
  stored reminders after the tick are the stored reminders before it, one for one, each
  either unchanged or, if it was active and due, changed in \<open>last_sent\<close> alone; so no
  reminder and no log is created. Nor do posting a medication, uploading a prescription,
  deleting a medication or the backfill touch the logs: only \<open>take_medication\<close> appends
  one, when the medication is found. ObjectIds of stored reminders are taken to be distinct.
\<close>

theorem tick_changes_only_last_sent:
  assumes "distinct (map rid (reminders s))"
  shows "medications (snd (check_and_send_reminders e s)) = medications s \<and>
         logs (snd (check_and_send_reminders e s)) = logs s \<and>
         users (snd (check_and_send_reminders e s)) = users s \<and>
         list_all2 (tick_change (clock e (clock_reads s)) (strftime_HM (clock e (clock_reads s))))
           (reminders s) (reminders (snd (check_and_send_reminders e s))) \<and>
         length (reminders (snd (check_and_send_reminders e s))) = length (reminders s) \<and>
         logs (snd (post_medication cu data s)) = logs s \<and>
         logs (snd (upload_prescription cu mds s)) = logs s \<and>
         logs (snd (delete_medication cu i s)) = logs s \<and>
         logs (backfill_reminders_for_all_users s) = logs s \<and>
         logs (snd (take_medication cu i s)) =
           logs s @ (case owned_medication cu i s of
                       None \<Rightarrow> []
                     | Some med \<Rightarrow> [\<lparr>lid = next_oid s, l_user_id = uid cu,
                                      l_medication_id = mid med, l_notes = []\<rparr>])"
proof -
  obtain err s' where t: "check_and_send_reminders e s = (err, s')" by force
  note ch = tick_change_store [OF assms t]
  from ch have "length (reminders s') = length (reminders s)"
    by (simp add: list_all2_lengthD)
  with tick_frame [OF t] ch t take_medication_logs [of cu i s] show ?thesis by simp
qed

theorem tick_changes_only_last_sent_witness:
  "medications (snd (check_and_send_reminders morning store1)) = medications store1 \<and>
   logs (snd (check_and_send_reminders morning store1)) = [] \<and>
   reminders (snd (check_and_send_reminders morning store1)) =
     [\<lparr>rid = 3, r_user_id = 1, r_medication_id = 2, r_time = ''09:00'',
       r_is_active = True, last_sent = Some (clock_at 17 9 0 1)\<rparr>,
      \<lparr>rid = 4, r_user_id = 1, r_medication_id = 2, r_time = ''20:00'',
       r_is_active = True, last_sent = None\<rparr>] \<and>
   list_all2 (tick_change (clock morning (clock_reads store1))
                (strftime_HM (clock morning (clock_reads store1))))
     (reminders store1) (reminders (snd (check_and_send_reminders morning store1))) \<and>
   length (logs (snd (take_medication ann 2 store1))) = 1"
proof -
  have h: "distinct (map rid (reminders store1))" by (simp add: store1_eq)
  note T = tick_changes_only_last_sent [OF h, where e = morning and cu = ann and i = 2]
  have l0: "logs store1 = []" by (simp add: store1_eq)
  have om: "owned_medication ann 2 store1 \<noteq> None"
    by (simp add: store1_eq owned_medication_def ann_def)
  from T l0 om have "length (logs (snd (take_medication ann 2 store1))) = 1" by auto
  moreover have "reminders (snd (check_and_send_reminders morning store1)) =
     [\<lparr>rid = 3, r_user_id = 1, r_medication_id = 2, r_time = ''09:00'',
       r_is_active = True, last_sent = Some (clock_at 17 9 0 1)\<rparr>,
      \<lparr>rid = 4, r_user_id = 1, r_medication_id = 2, r_time = ''20:00'',
       r_is_active = True, last_sent = None\<rparr>]"
    by (simp add: tick_morning_store1)
  ultimately show ?thesis using T l0 by simp
qed

lemma take_medication_reminders [simp]:
  "reminders (snd (take_medication cu i s)) = reminders s"
  "medications (snd (take_medication cu i s)) = medications s"
  by (simp_all add: take_medication_def split: option.split)

lemma list_reminders_cong:
  "reminders s' = reminders s \<Longrightarrow> medications s' = medications s \<Longrightarrow>
   list_reminders cu s' = list_reminders cu s"
  by (simp add: list_reminders_def reminder_entry_def find_medication_def fun_eq_iff)

text \<open>
  Claim C10. The \<open>last_taken\<close> fields that \<open>list_reminders\<close> reports are, in order, the
  \<open>last_sent\<close> values of the user's active reminders: the ISO form of the time the
  scheduler last fired the reminder, null when it never did. Taking a medication, which
  appends a MedicationLog, changes nothing in the listing: after the 09:00 tick and a
  logged intake of the Aspirin, the listing still shows the tick's time for the 09:00
  reminder and null for the 20:00 one.
\<close>

theorem last_taken_is_last_sent:
  "map (\<lambda>entry. map_of entry ''last_taken'') (list_reminders cu s) =
     map (\<lambda>r. Some (case last_sent r of None \<Rightarrow> JNull | Some l \<Rightarrow> JStr (isoformat l)))
       (filter (\<lambda>r. r_user_id r = uid cu \<and> r_is_active r) (reminders s)) \<and>
   list_reminders cu (snd (take_medication cu' i s)) = list_reminders cu s \<and>
   length (logs (snd (take_medication ann 2 store1_sent))) = 1 \<and>
   map (\<lambda>entry. map_of entry ''last_taken'')
       (list_reminders ann (snd (take_medication ann 2 store1_sent))) =
     [Some (JStr ''2024-05-17T09:00:01''), Some JNull]"
proof -
  have a: "map (\<lambda>entry. map_of entry ''last_taken'') (list_reminders cu s) =
     map (\<lambda>r. Some (case last_sent r of None \<Rightarrow> JNull | Some l \<Rightarrow> JStr (isoformat l)))
       (filter (\<lambda>r. r_user_id r = uid cu \<and> r_is_active r) (reminders s))" for cu s
    by (simp add: list_reminders_def reminder_entry_def Let_def comp_def split: option.split)
  have b: "list_reminders cu (snd (take_medication cu' i s)) = list_reminders cu s" for cu cu' i s
    by (rule list_reminders_cong) simp_all
  have c: "length (logs (snd (take_medication ann 2 store1_sent))) = 1"
    by (simp add: take_medication_logs store1_sent_eq owned_medication_def ann_def)
  have d: "map (\<lambda>entry. map_of entry ''last_taken'') (list_reminders ann store1_sent) =
     [Some (JStr ''2024-05-17T09:00:01''), Some JNull]"
    by (simp add: a store1_sent_eq ann_def clock_at_def isoformat_def pad4_def pad2_def digit_def)
  from a b c d show ?thesis by simp
qed

section \<open>Creating reminders\<close>

lemma ensure_reminder_alt:
  "ensure_reminder u m t s =
     (if has_key u m t s then s
      else s\<lparr>reminders := reminders s @
               [\<lparr>rid = next_oid s, r_user_id = u, r_medication_id = m, r_time = t,
                 r_is_active = True, last_sent = None\<rparr>],
             next_oid := Suc (next_oid s)\<rparr>)"
proof -
  have "(find (\<lambda>r. r_user_id r = u \<and> r_medication_id r = m \<and> r_time r = t) (reminders s) = None)
      = (\<not> has_key u m t s)"
    by (auto simp: has_key_def reminder_key_def list_ex_iff find_None_iff)
  then show ?thesis
    by (cases "find (\<lambda>r. r_user_id r = u \<and> r_medication_id r = m \<and> r_time r = t) (reminders s)")
      (auto simp: ensure_reminder_def)
qed

lemma ensure_has: "has_key u m t s \<Longrightarrow> ensure_reminder u m t s = s"
  by (simp add: ensure_reminder_alt)

lemma has_after: "has_key u m t (ensure_reminder u m t s)"
  by (simp add: ensure_reminder_alt) (simp add: has_key_def reminder_key_def)

lemma has_mono: "has_key a b c s \<Longrightarrow> has_key a b c (ensure_reminder u m t s)"
  by (simp add: ensure_reminder_alt) (simp add: has_key_def)

lemma ensure_idem: "ensure_reminder u m t (ensure_reminder u m t s) = ensure_reminder u m t s"
  by (rule ensure_has) (rule has_after)

lemma has_key_count: "has_key u m t s = (0 < key_count u m t s)"
  by (auto simp: has_key_def key_count_def list_ex_iff filter_empty_conv)

lemma ensure_count: "key_count u m t (ensure_reminder u m t s) = max 1 (key_count u m t s)"
proof (cases "has_key u m t s")
  case True
  then show ?thesis using has_key_count [of u m t s] by (simp add: ensure_has)
next
  case False
  then have "key_count u m t s = 0" by (simp add: has_key_count)
  with False show ?thesis
    by (simp add: ensure_reminder_alt) (simp add: key_count_def reminder_key_def)
qed

lemma ensure_appends: "\<exists>new. reminders (ensure_reminder u m t s) = reminders s @ new"
  by (simp add: ensure_reminder_alt)

lemma ensure_reminders_Cons:
  "ensure_reminders u m (t # ts) s = ensure_reminders u m ts (ensure_reminder u m t s)"
  by (simp add: ensure_reminders_def)

lemma ensure_reminders_Nil [simp]: "ensure_reminders u m [] s = s"
  by (simp add: ensure_reminders_def)

lemma ensure_reminders_has_all:
  "list_all (\<lambda>t. has_key u m t s) ts \<Longrightarrow> ensure_reminders u m ts s = s"
  by (induction ts) (simp_all add: ensure_reminders_Cons ensure_has)

lemma ensure_reminders_mono:
  "has_key a b c s \<Longrightarrow> has_key a b c (ensure_reminders u m ts s)"
  by (induction ts arbitrary: s) (simp_all add: ensure_reminders_Cons has_mono)

lemma ensure_reminders_after:
  "list_all (\<lambda>t. has_key u m t (ensure_reminders u m ts s)) ts"
proof (induction ts arbitrary: s)
  case Nil
  then show ?case by simp
next
  case (Cons t ts)
  have "has_key u m t (ensure_reminders u m ts (ensure_reminder u m t s))"
    by (rule ensure_reminders_mono) (rule has_after)
  with Cons.IH [of "ensure_reminder u m t s"] show ?case by (simp add: ensure_reminders_Cons)
qed

lemma ensure_reminders_idem:
  "ensure_reminders u m ts (ensure_reminders u m ts s) = ensure_reminders u m ts s"
  by (rule ensure_reminders_has_all) (rule ensure_reminders_after)

text \<open>The loop of the backfill over the medications of one user.\<close>

lemma covered_Cons:
  "covered u (m # ms) s =
     (list_all (\<lambda>t. has_key (uid u) (mid m) t s) (parse_frequency_to_times (frequency m)) \<and>
      covered u ms s)"
  by (simp add: covered_def)

lemma covered_grows:
  assumes "covered u ms s" and "\<And>a b c. has_key a b c s \<Longrightarrow> has_key a b c s'"
  shows "covered u ms s'"
  using assms by (auto simp: covered_def list_all_iff)

lemma fold_step_covered_id:
  "covered u ms s \<Longrightarrow>
   fold (\<lambda>m. ensure_reminders (uid u) (mid m) (parse_frequency_to_times (frequency m))) ms s = s"
  by (induction ms) (simp_all add: covered_Cons ensure_reminders_has_all)

lemma fold_step_mono:
  "has_key a b c s \<Longrightarrow>
   has_key a b c
     (fold (\<lambda>m. ensure_reminders (uid u) (mid m) (parse_frequency_to_times (frequency m))) ms s)"
  by (induction ms arbitrary: s) (simp_all add: ensure_reminders_mono)

lemma fold_step_covers:
  "covered u ms
     (fold (\<lambda>m. ensure_reminders (uid u) (mid m) (parse_frequency_to_times (frequency m))) ms s)"
proof (induction ms arbitrary: s)
  case Nil
  then show ?case by (simp add: covered_def)
next
  case (Cons m ms)
  let ?s1 = "ensure_reminders (uid u) (mid m) (parse_frequency_to_times (frequency m)) s"
  let ?f = "fold (\<lambda>m. ensure_reminders (uid u) (mid m) (parse_frequency_to_times (frequency m))) ms"
  have "list_all (\<lambda>t. has_key (uid u) (mid m) t ?s1) (parse_frequency_to_times (frequency m))"
    by (rule ensure_reminders_after)
  then have "list_all (\<lambda>t. has_key (uid u) (mid m) t (?f ?s1)) (parse_frequency_to_times (frequency m))"
    by (auto simp: list_all_iff fold_step_mono)
  with Cons.IH [of ?s1] show ?case by (simp add: covered_Cons)
qed

lemma backfill_medications_mono:
  "has_key a b c s \<Longrightarrow> has_key a b c (backfill_medications u s)"
  by (simp add: backfill_medications_def fold_step_mono)

lemma user_medications_cong:
  "medications s' = medications s \<Longrightarrow> user_medications u s' = user_medications u s"
  by (simp add: user_medications_def)

lemma backfill_medications_covers:
  "covered u (user_medications u s) (backfill_medications u s)"
  using fold_step_covers [of u "user_medications u s" s]
  by (simp add: backfill_medications_def user_medications_def)

lemma backfill_medications_id:
  "covered u (user_medications u s) s \<Longrightarrow> backfill_medications u s = s"
  using fold_step_covered_id [of u "user_medications u s" s]
  by (simp add: backfill_medications_def user_medications_def)

lemma fold_backfill_mono:
  "has_key a b c s \<Longrightarrow> has_key a b c (fold backfill_medications us s)"
  by (induction us arbitrary: s) (simp_all add: backfill_medications_mono)

lemma fold_backfill_id:
  "list_all (\<lambda>u. covered u (user_medications u s) s) us \<Longrightarrow> fold backfill_medications us s = s"
  by (induction us) (simp_all add: backfill_medications_id)

lemma fold_backfill_covers:
  "list_all (\<lambda>u. covered u (user_medications u s) (fold backfill_medications us s)) us"
proof (induction us arbitrary: s)
  case Nil
  then show ?case by simp
next
  case (Cons u us)
  let ?s1 = "backfill_medications u s"
  have um: "user_medications v ?s1 = user_medications v s" for v
    by (rule user_medications_cong) simp
  have "covered u (user_medications u s) ?s1" by (rule backfill_medications_covers)
  then have a: "covered u (user_medications u s) (fold backfill_medications us ?s1)"
    by (rule covered_grows) (rule fold_backfill_mono)
  from Cons.IH [of ?s1] have
    "list_all (\<lambda>v. covered v (user_medications v s) (fold backfill_medications us ?s1)) us"
    by (simp add: um)
  with a show ?case by simp
qed

lemma backfill_id:
  "list_all (\<lambda>u. covered u (user_medications u s) s) (users s) \<Longrightarrow>
   backfill_reminders_for_all_users s = s"
  by (simp add: backfill_reminders_for_all_users_def fold_backfill_id)

lemma backfill_idem:
  "backfill_reminders_for_all_users (backfill_reminders_for_all_users s) =
   backfill_reminders_for_all_users s"
proof -
  let ?b = "backfill_reminders_for_all_users s"
  have um: "user_medications v ?b = user_medications v s" for v
    by (rule user_medications_cong) simp
  have "list_all (\<lambda>u. covered u (user_medications u s) ?b) (users s)"
    using fold_backfill_covers [of s "users s"]
    by (simp add: backfill_reminders_for_all_users_def)
  then have "list_all (\<lambda>u. covered u (user_medications u ?b) ?b) (users ?b)"
    by (simp add: um)
  then show ?thesis by (rule backfill_id)
qed

lemma post_medication_again:
  assumes "fst (post_medication cu data s) = 201"
  shows "post_medication cu data (snd (post_medication cu data s)) =
           (409, snd (post_medication cu data s))"
proof -
  from assms obtain n where n: "md_name data = Some n" "n \<noteq> []"
    "active_named (uid cu) n s = None"
    by (auto simp: post_medication_def Let_def split: option.splits if_splits)
  let ?med = "\<lparr>mid = next_oid s, m_user_id = uid cu,
                        user_username = username cu, name = n,
                        dosage = md_dosage data, frequency = md_frequency data,
                        instructions = md_instructions data, duration = md_duration data,
                        source = ''manual'', m_is_active = True\<rparr>"
  let ?s' = "snd (post_medication cu data s)"
  from n have "medications ?s' = medications s @ [?med]"
    by (simp add: post_medication_def Let_def)
  with n(3) have "active_named (uid cu) n ?s' = Some ?med"
    by (simp add: active_named_def find_snoc)
  with n(1,2) show ?thesis by (simp add: post_medication_def)
qed

text \<open>
  Claim C5. The create-if-absent step done twice with the same user, medication and time
  gives the state of doing it once, with one stored reminder of that key if there was at
  most one before, the records already stored staying in place; the step, and the loop over
  a medication's times, write nothing when the reminders are already stored; so does the
  backfill when the reminders of all active medications are stored, and running the backfill
  twice gives the state of running it once. A medication posted a second time is answered
  409 and nothing is written.
\<close>

theorem ensure_is_idempotent:
  "ensure_reminder u m t (ensure_reminder u m t s) = ensure_reminder u m t s \<and>
   key_count u m t (ensure_reminder u m t (ensure_reminder u m t s)) = max 1 (key_count u m t s) \<and>
   (\<exists>new. reminders (ensure_reminder u m t s) = reminders s @ new) \<and>
   (has_key u m t s \<longrightarrow> ensure_reminder u m t s = s) \<and>
   (list_all (\<lambda>t. has_key u m t s) ts \<longrightarrow> ensure_reminders u m ts s = s) \<and>
   ensure_reminders u m ts (ensure_reminders u m ts s) = ensure_reminders u m ts s \<and>
   (list_all (\<lambda>v. covered v (user_medications v s) s) (users s) \<longrightarrow>
      backfill_reminders_for_all_users s = s) \<and>
   backfill_reminders_for_all_users (backfill_reminders_for_all_users s) =
     backfill_reminders_for_all_users s \<and>
   (fst (post_medication cu data s) = 201 \<longrightarrow>
      post_medication cu data (snd (post_medication cu data s)) =
        (409, snd (post_medication cu data s)))"
  using ensure_idem [of u m t s] ensure_count [of u m t s] ensure_appends [of u m t s]
    ensure_has [of u m t s] ensure_reminders_has_all [of u m s ts]
    ensure_reminders_idem [of u m ts s] backfill_id [of s] backfill_idem [of s]
    post_medication_again [of cu data s]
  by simp


theorem ensure_is_idempotent_witness:
  "ensure_reminder 1 2 ''09:00'' store1 = store1 \<and>
   ensure_reminders 1 2 [''09:00'', ''20:00''] store1 = store1 \<and>
   backfill_reminders_for_all_users store1 = store1 \<and>
   post_medication ann aspirin store1 = (409, store1) \<and>
   key_count 1 2 ''09:00'' store1 = 1 \<and>
   key_count 1 2 ''14:00'' store1 = 0 \<and>
   key_count 1 2 ''14:00'' (ensure_reminder 1 2 ''14:00'' (ensure_reminder 1 2 ''14:00'' store1)) = 1"
proof -
  have h1: "has_key 1 2 ''09:00'' store1"
    by (simp add: store1_eq has_key_def reminder_key_def)
  have h2: "list_all (\<lambda>t. has_key 1 2 t store1) [''09:00'', ''20:00'']"
    by (simp add: store1_eq has_key_def reminder_key_def)
  have h3: "list_all (\<lambda>v. covered v (user_medications v store1) store1) (users store1)"
    by (simp add: store1_eq covered_def user_medications_def has_key_def reminder_key_def
        parse_frequency_to_times_def lower_def lower_char_def)
  have h4: "fst (post_medication ann aspirin empty_store) = 201"
    by (simp add: scenario_defs eval_defs)
  have k1: "key_count 1 2 ''09:00'' store1 = 1" and k2: "key_count 1 2 ''14:00'' store1 = 0"
    by (simp_all add: store1_eq key_count_def reminder_key_def)
  note A = ensure_is_idempotent [where s = store1 and u = 1 and m = 2 and t = "''09:00''"
      and ts = "[''09:00'', ''20:00'']"]
  note B = ensure_is_idempotent [where s = store1 and u = 1 and m = 2 and t = "''14:00''"]
  note C = ensure_is_idempotent [where s = empty_store and cu = ann and data = aspirin]
  from A h1 have a1: "ensure_reminder 1 2 ''09:00'' store1 = store1" by blast
  from A h2 have a2: "ensure_reminders 1 2 [''09:00'', ''20:00''] store1 = store1" by blast
  from A h3 have a3: "backfill_reminders_for_all_users store1 = store1" by blast
  from B have "key_count 1 2 ''14:00''
      (ensure_reminder 1 2 ''14:00'' (ensure_reminder 1 2 ''14:00'' store1)) =
      max 1 (key_count 1 2 ''14:00'' store1)" by blast
  with k2 have b: "key_count 1 2 ''14:00''
      (ensure_reminder 1 2 ''14:00'' (ensure_reminder 1 2 ''14:00'' store1)) = 1" by simp
  from C h4 have "post_medication ann aspirin (snd (post_medication ann aspirin empty_store)) =
        (409, snd (post_medication ann aspirin empty_store))" by blast
  then have c: "post_medication ann aspirin store1 = (409, store1)" by (simp add: store1_def)
  from a1 a2 a3 b c k1 k2 show ?thesis by blast
qed

lemma store_inv_ensure:
  assumes "store_inv s"
    and "list_ex (\<lambda>med. mid med = m \<and> m_user_id med = u \<and>
                    t \<in> set (parse_frequency_to_times (frequency med))) (medications s)"
  shows "store_inv (ensure_reminder u m t s)"
proof (cases "has_key u m t s")
  case True
  with assms(1) show ?thesis by (simp add: ensure_has)
next
  case False
  let ?new = "\<lparr>rid = next_oid s, r_user_id = u, r_medication_id = m, r_time = t,
                 r_is_active = True, last_sent = None\<rparr>"
  from assms(1) have
    a: "\<forall>x\<in>set (medications s). mid x < next_oid s"
    and b: "\<forall>r\<in>set (reminders s). rid r < next_oid s"
    and c: "distinct (map mid (medications s))"
    and d: "distinct (map rid (reminders s))"
    and e: "list_all (\<lambda>r. list_ex (\<lambda>m. mid m = r_medication_id r \<and> m_user_id m = r_user_id r \<and>
                              r_time r \<in> set (parse_frequency_to_times (frequency m)))
                        (medications s)) (reminders s)"
    and f: "distinct (map reminder_key (reminders s))"
    by (simp_all add: store_inv_def list_all_iff)
  from b have d': "next_oid s \<notin> rid ` set (reminders s)" by auto
  from False have f': "(u, m, t) \<notin> reminder_key ` set (reminders s)"
    by (auto simp: has_key_def list_ex_iff)
  from a have a': "\<forall>x\<in>set (medications s). mid x < Suc (next_oid s)" by auto
  from b have b': "\<forall>r\<in>set (reminders s). rid r < Suc (next_oid s)" by auto
  have "store_inv (s\<lparr>reminders := reminders s @ [?new], next_oid := Suc (next_oid s)\<rparr>)"
    using a' b' c d d' e f f' assms(2)
    by (simp add: store_inv_def list_all_iff reminder_key_def)
  with False show ?thesis by (simp add: ensure_reminder_alt)
qed

lemma store_inv_ensure_reminders:
  assumes "store_inv s"
    and "list_all (\<lambda>t. list_ex (\<lambda>med. mid med = m \<and> m_user_id med = u \<and>
                    t \<in> set (parse_frequency_to_times (frequency med))) (medications s)) ts"
  shows "store_inv (ensure_reminders u m ts s)"
  using assms
proof (induction ts arbitrary: s)
  case Nil
  then show ?case by simp
next
  case (Cons t ts)
  from Cons.prems have "store_inv (ensure_reminder u m t s)" by (simp add: store_inv_ensure)
  moreover from Cons.prems(2) have "list_all (\<lambda>t. list_ex (\<lambda>med. mid med = m \<and> m_user_id med = u \<and>
                    t \<in> set (parse_frequency_to_times (frequency med)))
        (medications (ensure_reminder u m t s))) ts" by simp
  ultimately show ?case by (simp add: ensure_reminders_Cons Cons.IH)
qed

lemma store_inv_reconcile:
  assumes "store_inv s" and "med \<in> set (medications s)"
  shows "store_inv (ensure_reminders (m_user_id med) (mid med)
           (parse_frequency_to_times (frequency med)) s)"
  using assms(1)
proof (rule store_inv_ensure_reminders)
  show "list_all (\<lambda>t. list_ex (\<lambda>x. mid x = mid med \<and> m_user_id x = m_user_id med \<and>
                    t \<in> set (parse_frequency_to_times (frequency x))) (medications s))
          (parse_frequency_to_times (frequency med))"
    using assms(2) by (auto simp: list_all_iff list_ex_iff)
qed

lemma store_inv_add_medication:
  assumes "store_inv s" and "mid med = next_oid s"
  shows "store_inv (s\<lparr>medications := medications s @ [med], next_oid := Suc (next_oid s)\<rparr>)"
proof -
  from assms(1) have
    a: "\<forall>x\<in>set (medications s). mid x < next_oid s"
    and b: "\<forall>r\<in>set (reminders s). rid r < next_oid s"
    and c: "distinct (map mid (medications s))"
    and d: "distinct (map rid (reminders s))"
    and e: "\<forall>r\<in>set (reminders s). \<exists>m\<in>set (medications s).
               mid m = r_medication_id r \<and> m_user_id m = r_user_id r \<and>
               r_time r \<in> set (parse_frequency_to_times (frequency m))"
    and f: "distinct (map reminder_key (reminders s))"
    by (simp_all add: store_inv_def list_all_iff list_ex_iff)
  from a assms(2) have c': "mid med \<notin> mid ` set (medications s)" by auto
  from a have a': "\<forall>x\<in>set (medications s). mid x < Suc (next_oid s)" by auto
  from b have b': "\<forall>r\<in>set (reminders s). rid r < Suc (next_oid s)" by auto
  from e have e': "\<forall>r\<in>set (reminders s). \<exists>m\<in>set (medications s) \<union> {med}.
               mid m = r_medication_id r \<and> m_user_id m = r_user_id r \<and>
               r_time r \<in> set (parse_frequency_to_times (frequency m))" by blast
  show ?thesis
    using a' b' c c' d e' f assms(2)
    by (simp add: store_inv_def list_all_iff list_ex_iff)
qed

lemma store_inv_emitted [simp]: "store_inv (s\<lparr>emitted := x\<rparr>) = store_inv s"
  by (simp add: store_inv_def)

lemma store_inv_new_medication:
  assumes "store_inv s" and "mid med = next_oid s"
  shows "store_inv (ensure_reminders (m_user_id med) (mid med)
           (parse_frequency_to_times (frequency med))
           (s\<lparr>medications := medications s @ [med], next_oid := Suc (next_oid s)\<rparr>))"
  by (rule store_inv_reconcile) (simp_all add: store_inv_add_medication [OF assms])

lemma store_inv_post:
  assumes "store_inv s"
  shows "store_inv (snd (post_medication cu data s))"
proof (cases "fst (post_medication cu data s) = 201")
  case False
  then have "snd (post_medication cu data s) = s"
    by (auto simp: post_medication_def Let_def split: option.splits if_splits)
  with assms show ?thesis by simp
next
  case True
  then obtain n where n: "md_name data = Some n" "n \<noteq> []" "active_named (uid cu) n s = None"
    by (auto simp: post_medication_def Let_def split: option.splits if_splits)
  let ?med = "\<lparr>mid = next_oid s, m_user_id = uid cu,
                        user_username = username cu, name = n,
                        dosage = md_dosage data, frequency = md_frequency data,
                        instructions = md_instructions data, duration = md_duration data,
                        source = ''manual'', m_is_active = True\<rparr>"
  have "store_inv (ensure_reminders (m_user_id ?med) (mid ?med)
           (parse_frequency_to_times (frequency ?med))
           (s\<lparr>medications := medications s @ [?med], next_oid := Suc (next_oid s)\<rparr>))"
    using assms by (rule store_inv_new_medication) simp
  with n show ?thesis by (simp add: post_medication_def Let_def)
qed

lemma store_inv_add_extracted:
  "store_inv s \<Longrightarrow> store_inv (snd (snd (add_extracted cu mds k s)))"
proof (induction mds arbitrary: k s)
  case Nil
  then show ?case by simp
next
  case (Cons md mds)
  show ?case
  proof (cases "md_name md")
    case None
    with Cons.prems show ?thesis by simp
  next
    case (Some n)
    show ?thesis
    proof (cases "active_named (uid cu) n s")
      case (Some existing)
      with \<open>md_name md = Some n\<close> Cons.IH [OF Cons.prems] show ?thesis by simp
    next
      case None
      let ?med = "\<lparr>mid = next_oid s, m_user_id = uid cu,
                       user_username = username cu, name = n,
                       dosage = md_dosage md, frequency = md_frequency md,
                       instructions = md_instructions md, duration = None,
                       source = ''ocr'', m_is_active = True\<rparr>"
      let ?s2 = "ensure_reminders (m_user_id ?med) (mid ?med)
           (parse_frequency_to_times (frequency ?med))
           (s\<lparr>medications := medications s @ [?med], next_oid := Suc (next_oid s)\<rparr>)"
      have "store_inv ?s2" using Cons.prems by (rule store_inv_new_medication) simp
      then have "store_inv (?s2\<lparr>emitted := emitted ?s2 @
                            [(''medication_added'', [(''medication'', JMed ?med)], uid cu)]\<rparr>)"
        by simp
      from Cons.IH [OF this] None \<open>md_name md = Some n\<close> show ?thesis
        by (simp add: Let_def)
    qed
  qed
qed

lemma store_inv_fold_step:
  assumes "store_inv s" and "set ms \<subseteq> set (medications s)" and "\<forall>m\<in>set ms. m_user_id m = u"
  shows "store_inv
     (fold (\<lambda>m. ensure_reminders u (mid m) (parse_frequency_to_times (frequency m))) ms s)"
  using assms
proof (induction ms arbitrary: s)
  case Nil
  then show ?case by simp
next
  case (Cons m ms)
  let ?s1 = "ensure_reminders u (mid m) (parse_frequency_to_times (frequency m)) s"
  from Cons.prems have "m \<in> set (medications s)" "m_user_id m = u" by simp_all
  with store_inv_reconcile [OF Cons.prems(1), of m] have "store_inv ?s1" by simp
  moreover from Cons.prems have "set ms \<subseteq> set (medications ?s1)" by simp
  moreover from Cons.prems have "\<forall>m\<in>set ms. m_user_id m = u" by simp
  ultimately show ?case using Cons.IH [of ?s1] by simp
qed

lemma store_inv_backfill_medications:
  "store_inv s \<Longrightarrow> store_inv (backfill_medications u s)"
  unfolding backfill_medications_def
  by (rule store_inv_fold_step) auto

lemma store_inv_backfill:
  "store_inv s \<Longrightarrow> store_inv (backfill_reminders_for_all_users s)"
proof -
  have "store_inv s \<Longrightarrow> store_inv (fold backfill_medications us s)" for us
    by (induction us arbitrary: s) (simp_all add: store_inv_backfill_medications)
  then show "store_inv s \<Longrightarrow> store_inv (backfill_reminders_for_all_users s)"
    by (simp add: backfill_reminders_for_all_users_def)
qed


lemma store_inv_take:
  "store_inv s \<Longrightarrow> store_inv (snd (take_medication cu i s))"
  by (auto simp: take_medication_def store_inv_def list_all_iff split: option.split)

lemma find_Some_mem: "find P xs = Some x \<Longrightarrow> x \<in> set xs \<and> P x"
  by (auto simp: find_Some_iff in_set_conv_nth)

lemma store_inv_delete:
  assumes "store_inv s"
  shows "store_inv (snd (delete_medication cu i s))"
proof (cases "owned_medication cu i s")
  case None
  with assms show ?thesis by (simp add: delete_medication_def)
next
  case (Some med)
  then have mem: "med \<in> set (medications s)"
    by (auto simp: owned_medication_def dest: find_Some_mem)
  define f where "f = (\<lambda>x. if mid x = mid med then med\<lparr>m_is_active := False\<rparr> else x)"
  from assms have dist: "distinct (map mid (medications s))" by (simp add: store_inv_def)
  have same: "mid (f x) = mid x \<and> m_user_id (f x) = m_user_id x \<and> frequency (f x) = frequency x"
    if x: "x \<in> set (medications s)" for x
  proof (cases "mid x = mid med")
    case True
    with dist mem x have "x = med" by (meson distinct_map inj_onD)
    then show ?thesis by (simp add: f_def)
  next
    case False
    then show ?thesis by (simp add: f_def)
  qed
  have ex: "list_ex (\<lambda>x. mid x = mid med) (medications s)"
    using mem by (auto simp: list_ex_iff)
  then have st: "snd (delete_medication cu i s) = s\<lparr>medications := map f (medications s)\<rparr>"
    using Some by (simp add: delete_medication_def save_medication_def f_def)
  have mids: "map mid (map f (medications s)) = map mid (medications s)"
    using same by (simp add: comp_def)
  from assms have
    a: "\<forall>x\<in>set (medications s). mid x < next_oid s"
    and e: "\<forall>r\<in>set (reminders s). \<exists>m\<in>set (medications s).
               mid m = r_medication_id r \<and> m_user_id m = r_user_id r \<and>
               r_time r \<in> set (parse_frequency_to_times (frequency m))"
    by (simp_all add: store_inv_def list_all_iff list_ex_iff)
  have a': "\<forall>x\<in>set (medications s). mid (f x) < next_oid s"
    using a same by simp
  have e': "\<forall>r\<in>set (reminders s). \<exists>m\<in>set (medications s).
               mid (f m) = r_medication_id r \<and> m_user_id (f m) = r_user_id r \<and>
               r_time r \<in> set (parse_frequency_to_times (frequency (f m)))"
  proof
    fix r assume "r \<in> set (reminders s)"
    with e obtain m where m: "m \<in> set (medications s)" "mid m = r_medication_id r"
      "m_user_id m = r_user_id r" "r_time r \<in> set (parse_frequency_to_times (frequency m))"
      by blast
    from same [OF m(1)] m(2,3,4) have "mid (f m) = r_medication_id r \<and>
        m_user_id (f m) = r_user_id r \<and>
        r_time r \<in> set (parse_frequency_to_times (frequency (f m)))" by simp
    with m(1) show "\<exists>m\<in>set (medications s).
               mid (f m) = r_medication_id r \<and> m_user_id (f m) = r_user_id r \<and>
               r_time r \<in> set (parse_frequency_to_times (frequency (f m)))" by blast
  qed
  have "store_inv (s\<lparr>medications := map f (medications s)\<rparr>)"
    using assms a' e' mids
    by (simp add: store_inv_def list_all_iff list_ex_iff del: map_map)
  with st show ?thesis by simp
qed

lemma tick_change_key: "tick_change d hm r r' \<Longrightarrow> reminder_key r' = reminder_key r"
  by (auto simp: tick_change_def reminder_key_def)

lemma list_all2_tick_change_keys:
  "list_all2 (tick_change d hm) rs rs' \<Longrightarrow> map reminder_key rs' = map reminder_key rs"
  by (induction rule: list_all2_induct) (auto simp: tick_change_key)

lemma list_all2_tick_change_pred:
  assumes "list_all2 (tick_change d hm) rs rs'"
    and "\<And>r r'. rid r' = rid r \<Longrightarrow> reminder_key r' = reminder_key r \<Longrightarrow> P r \<Longrightarrow> P r'"
    and "list_all P rs"
  shows "list_all P rs'"
  using assms(1,3)
  by (induction rule: list_all2_induct) (auto intro: assms(2) simp: tick_change_key tick_change_rid)

lemma store_inv_tick:
  assumes "store_inv s"
  shows "store_inv (snd (check_and_send_reminders e s))"
proof -
  obtain err s' where t: "check_and_send_reminders e s = (err, s')" by force
  from assms have dist: "distinct (map rid (reminders s))" by (simp add: store_inv_def)
  note ch = tick_change_store [OF dist t]
  note fr = tick_frame [OF t]
  note ids = list_all2_tick_change_ids [OF ch]
  note keys = list_all2_tick_change_keys [OF ch]
  from assms have
    b: "list_all (\<lambda>r. rid r < next_oid s) (reminders s)"
    and e: "list_all (\<lambda>r. list_ex (\<lambda>m. mid m = r_medication_id r \<and> m_user_id m = r_user_id r \<and>
                              r_time r \<in> set (parse_frequency_to_times (frequency m)))
                        (medications s)) (reminders s)"
    by (simp_all add: store_inv_def)
  have b': "list_all (\<lambda>r. rid r < next_oid s) (reminders s')"
    using ch _ b by (rule list_all2_tick_change_pred) simp
  have e': "list_all (\<lambda>r. list_ex (\<lambda>m. mid m = r_medication_id r \<and> m_user_id m = r_user_id r \<and>
                              r_time r \<in> set (parse_frequency_to_times (frequency m)))
                        (medications s)) (reminders s')"
    using ch _ e by (rule list_all2_tick_change_pred) (simp add: reminder_key_def)
  from assms b' e' ids keys fr have "store_inv s'" by (simp add: store_inv_def)
  with t show ?thesis by simp
qed

text \<open>
  Claim C9. The invariant of the store (every stored reminder belongs to a stored medication
  of the same user, its time is one of the times the frequency interpreter gives for that
  medication's frequency, and no two stored reminders have the same user, medication and
  time; ObjectIds are fresh and unshared) holds of the empty store and is kept by each
  operation that creates reminders: posting a medication, the upload of a prescription and
  the startup backfill. It is kept as well by deleting a medication, taking one and a
  scheduler tick, none of which creates a reminder or changes a frequency, so the frequency
  at creation time is the stored one.
\<close>

theorem reminder_times_come_from_interpreter:
  assumes "store_inv s"
  shows "store_inv (snd (post_medication cu data s)) \<and>
         store_inv (snd (upload_prescription cu mds s)) \<and>
         store_inv (backfill_reminders_for_all_users s) \<and>
         store_inv (snd (delete_medication cu i s)) \<and>
         store_inv (snd (take_medication cu i s)) \<and>
         store_inv (snd (check_and_send_reminders e s)) \<and>
         store_inv (s\<lparr>medications := [], reminders := []\<rparr>) \<and>
         list_all (\<lambda>r. list_ex (\<lambda>m. mid m = r_medication_id r \<and> m_user_id m = r_user_id r \<and>
                              r_time r \<in> set (parse_frequency_to_times (frequency m)))
                        (medications s)) (reminders s) \<and>
         distinct (map reminder_key (reminders s))"
proof -
  have "store_inv (s\<lparr>medications := [], reminders := []\<rparr>)" by (simp add: store_inv_def)
  with assms store_inv_post [OF assms, of cu data] store_inv_add_extracted [OF assms, of cu mds 0]
    store_inv_backfill [OF assms] store_inv_delete [OF assms, of cu i]
    store_inv_take [OF assms, of cu i] store_inv_tick [OF assms, of e]
  show ?thesis by (simp add: upload_state) (simp add: store_inv_def)
qed

theorem reminder_times_come_from_interpreter_witness:
  "store_inv store1 \<and> store_inv store2 \<and>
   map reminder_key (reminders store2) =
     [(1, 2, ''09:00''), (1, 2, ''20:00''), (1, 5, ''09:00'')] \<and>
   store_inv (snd (upload_prescription ann [vitamin, aspirin, vitamin] store1)) \<and>
   store_inv (backfill_reminders_for_all_users store1)"
proof -
  have h: "store_inv store1"
    by (simp add: store1_eq store_inv_def reminder_key_def parse_frequency_to_times_def
        lower_def lower_char_def)
  note T = reminder_times_come_from_interpreter [OF h, where cu = ann and data = vitamin
      and mds = "[vitamin, aspirin, vitamin]"]
  from T have "store_inv store2" by (simp add: store2_def)
  moreover have "map reminder_key (reminders store2) =
     [(1, 2, ''09:00''), (1, 2, ''20:00''), (1, 5, ''09:00'')]"
    by (simp add: store2_eq reminder_key_def)
  ultimately show ?thesis using T h by simp
qed

section \<open>The time format and the scenario of the specification\<close>

lemma digit_lt10: "is_digit (digit n)"
proof -
  have "n mod 10 < 10" by simp
  then have "n mod 10 = 0 \<or> n mod 10 = 1 \<or> n mod 10 = 2 \<or> n mod 10 = 3 \<or> n mod 10 = 4 \<or>
      n mod 10 = 5 \<or> n mod 10 = 6 \<or> n mod 10 = 7 \<or> n mod 10 = 8 \<or> n mod 10 = 9" by arith
  then show ?thesis by (auto simp: digit_def is_digit_def)
qed

lemma digit_lt6: "n < 6 \<Longrightarrow> digit n \<in> set ''012345''"
proof -
  assume "n < 6"
  then have "n = 0 \<or> n = 1 \<or> n = 2 \<or> n = 3 \<or> n = 4 \<or> n = 5" by arith
  then show ?thesis by (auto simp: digit_def)
qed

lemma digit_hour:
  assumes "h < 24"
  shows "digit (h div 10) \<in> set ''01'' \<or> (digit (h div 10) = CHR ''2'' \<and> digit h \<in> set ''0123'')"
proof -
  from assms have "h = 0 \<or> h = 1 \<or> h = 2 \<or> h = 3 \<or> h = 4 \<or> h = 5 \<or> h = 6 \<or> h = 7 \<or>
      h = 8 \<or> h = 9 \<or> h = 10 \<or> h = 11 \<or> h = 12 \<or> h = 13 \<or> h = 14 \<or> h = 15 \<or>
      h = 16 \<or> h = 17 \<or> h = 18 \<or> h = 19 \<or> h = 20 \<or> h = 21 \<or> h = 22 \<or> h = 23"
    by arith
  then show ?thesis by (auto simp: digit_def)
qed

text \<open>
  The tick's \<open>HH:MM\<close>, which is the \<open>time\<close> of every alert of the tick, is well formed
  when the clock reading is a time of day.
\<close>

lemma strftime_HM_is_hhmm:
  assumes "hour dt < 24" and "minute dt < 60"
  shows "is_hhmm (strftime_HM dt)"
proof -
  from assms(2) have "minute dt div 10 < 6" by simp
  from digit_lt6 [OF this] digit_hour [OF assms(1)] show ?thesis
    by (simp add: strftime_HM_def pad2_def digit_lt10)
qed

text \<open>
  The scenario of the specification: with the Aspirin taken "twice daily (1-0-1)", two ticks
  at 09:00, one at 20:00 and one at 09:00 the next day emit three alerts: the 09:00 reminder
  once, the 20:00 reminder once, and the 09:00 reminder again the next day.
\<close>

lemma scenario_twice_daily:
  "map (\<lambda>em. (map_of (fst (snd em)) ''reminder_id'', map_of (fst (snd em)) ''timestamp''))
     (emitted (snd (check_and_send_reminders next_morning
        (snd (check_and_send_reminders evening
          (snd (check_and_send_reminders morning
            (snd (check_and_send_reminders morning store1))))))))) =
     [(Some (JOid 3), Some (JStr ''2024-05-17T09:00:02'')),
      (Some (JOid 4), Some (JStr ''2024-05-17T20:00:06'')),
      (Some (JOid 3), Some (JStr ''2024-05-18T09:00:09''))]"
  by (simp add: store1_eq scenario_defs tick_defs)

end
